theory Spec2Isabelle
  imports Main "HOL-Library.Log_Nat"
begin

section \<open>JavaScript numbers\<close>

text \<open>
  Every \<^verbatim>\<open>number\<close> of the TypeScript source is an IEEE-754 binary64 value. A finite
  double is modelled by the rational it denotes, and each arithmetic operation of the source
  by the exact rational operation followed by \<open>fl\<close>, rounding to the nearest double with ties
  to the even significand (53 bits, gradual underflow below \<open>2 powi - 1022\<close>). The model is
  exact as long as no operation reaches \<open>2 powi 1024\<close> (where JavaScript yields an infinity)
  and no operand is NaN; signed zero is not distinguished (\<open>-0 === 0\<close> in JavaScript).
  Numbers that are integers by their role (step counts, time values, loop counters) have
  type \<open>int\<close> and enter the arithmetic through \<open>of_int\<close>, which is exact for every
  integer that is a double, in particular below \<open>2^53\<close> in magnitude.

  \<open>exponent x\<close> is the binary exponent of a positive \<open>x\<close>, the \<open>e\<close> with
  \<open>2 powi e \<le> x < 2 powi (e + 1)\<close>; \<open>ulp x\<close> is the distance between neighbouring doubles
  at \<open>x\<close>.
\<close>

definition exponent :: "rat \<Rightarrow> int" where
  "exponent x = (let (p, q) = quotient_of x; d = bitlen p - bitlen q
             in if x < 2 powi d then d - 1 else d)"

definition round_half_even :: "rat \<Rightarrow> int" where
  "round_half_even r =
     (let f = \<lfloor>r\<rfloor>; d = r - of_int f
      in if d < 1 / 2 then f else if 1 / 2 < d then f + 1 else if even f then f else f + 1)"

definition ulp :: "rat \<Rightarrow> rat" where
  "ulp x = 2 powi (max (exponent \<bar>x\<bar>) (- 1022) - 52)"

definition fl :: "rat \<Rightarrow> rat" where
  "fl x = (if x = 0 then 0
           else sgn x * of_int (round_half_even (\<bar>x\<bar> / ulp x)) * ulp x)"

text \<open>
  \<^verbatim>\<open>Number.prototype.toFixed(f)\<close> followed by \<^verbatim>\<open>parseFloat\<close>. ECMAScript: for
  \<open>x < 0\<close> the sign is split off; for \<open>x \<ge> 10^21\<close> the result is \<^verbatim>\<open>ToString(x)\<close>, which
  parses back to \<open>x\<close>; otherwise the digits are those of the integer \<open>n\<close> for which
  \<open>n / 10^f - x\<close> is as close to zero as possible, the larger \<open>n\<close> if there are two.
  \<open>toFixed_digits\<close> is that \<open>n\<close> for the absolute value; \<open>parseFloat\<close> rounds the decimal
  numeral to the nearest double.
\<close>

definition toFixed_digits :: "nat \<Rightarrow> rat \<Rightarrow> int" where
  "toFixed_digits f x = \<lfloor>\<bar>x\<bar> * 10 ^ f + 1 / 2\<rfloor>"

definition parseFloat_toFixed :: "nat \<Rightarrow> rat \<Rightarrow> rat" where
  "parseFloat_toFixed f x =
     (if 10 ^ 21 \<le> \<bar>x\<bar> then x
      else fl (sgn x * (of_int (toFixed_digits f x) / 10 ^ f)))"

section \<open>StepCalculator\<close>

definition DEFAULT_STRIDE_LENGTH :: rat where
  "DEFAULT_STRIDE_LENGTH = fl (76 / 100)"

definition DEFAULT_WEIGHT_KG :: rat where
  "DEFAULT_WEIGHT_KG = 70"

definition DEFAULT_STEPS_PER_MINUTE :: rat where
  "DEFAULT_STEPS_PER_MINUTE = 120"

definition CALORIES_PER_1000_STEPS :: rat where
  "CALORIES_PER_1000_STEPS = 45"

text \<open>
  The optional parameters of the source are explicit arguments here; a caller that omits
  one passes the default. \<open>calculateActiveMinutes\<close> and \<open>stepsForDistance\<close> divide by their
  parameter: for a zero divisor JavaScript returns NaN or an infinity, which lies outside
  the finite numbers modelled, so those two are meant for non-zero parameters only (the
  adapters pass the defaults).
\<close>

definition distanceKm_of :: "int \<Rightarrow> rat \<Rightarrow> rat" where
  "distanceKm_of steps strideLength =
     (let distanceMeters = fl (of_int steps * strideLength)
      in fl (distanceMeters / 1000))"

definition calculateDistance :: "int \<Rightarrow> rat \<Rightarrow> rat" where
  "calculateDistance steps strideLength = parseFloat_toFixed 2 (distanceKm_of steps strideLength)"

definition calculateCalories :: "int \<Rightarrow> rat \<Rightarrow> int" where
  "calculateCalories steps weightKg =
     (let weightFactor = fl (weightKg / DEFAULT_WEIGHT_KG);
          baseCalories = fl (fl (of_int steps / 1000) * CALORIES_PER_1000_STEPS);
          adjustedCalories = fl (baseCalories * weightFactor)
      in \<lfloor>adjustedCalories\<rfloor>)"

definition calculateActiveMinutes :: "int \<Rightarrow> rat \<Rightarrow> int" where
  "calculateActiveMinutes steps stepsPerMinute = \<lfloor>fl (of_int steps / stepsPerMinute)\<rfloor>"

definition stepsForDistance :: "rat \<Rightarrow> rat \<Rightarrow> int" where
  "stepsForDistance distanceKm strideLength =
     (let distanceMeters = fl (distanceKm * 1000)
      in \<lceil>fl (distanceMeters / strideLength)\<rceil>)"

definition calculatePace :: "int \<Rightarrow> int \<Rightarrow> int" where
  "calculatePace steps minutes =
     (if minutes = 0 then 0 else \<lfloor>fl (of_int steps / of_int minutes)\<rfloor>)"

section \<open>Dates and identifiers\<close>

text \<open>
  A \<^verbatim>\<open>Date\<close> is its \<^verbatim>\<open>getTime()\<close>, milliseconds since the epoch. Local time is UTC plus a
  fixed offset \<open>tz\<close> (milliseconds); daylight-saving transitions are not modelled. The
  calendar round trip \<^verbatim>\<open>new Date(d.getFullYear(), d.getMonth(), d.getDate(), h, m, s)\<close> is
  \<open>localDate\<close>: the local midnight of \<open>d\<close>'s day plus the time of day. \<open>minusDays d i\<close> is
  \<^verbatim>\<open>d.setDate(d.getDate() - i)\<close>.
\<close>

type_synonym date = int

definition msPerDay :: int where
  "msPerDay = 86400000"

definition startOfLocalDay :: "int \<Rightarrow> date \<Rightarrow> date" where
  "startOfLocalDay tz d = d - (d + tz) mod msPerDay"

definition localDate :: "int \<Rightarrow> date \<Rightarrow> int \<Rightarrow> int \<Rightarrow> int \<Rightarrow> date" where
  "localDate tz d h m s = startOfLocalDay tz d + h * 3600000 + m * 60000 + s * 1000"

definition setHours :: "int \<Rightarrow> date \<Rightarrow> int \<Rightarrow> int \<Rightarrow> int \<Rightarrow> int \<Rightarrow> date" where
  "setHours tz d h m s ms = startOfLocalDay tz d + h * 3600000 + m * 60000 + s * 1000 + ms"

definition getHours :: "int \<Rightarrow> date \<Rightarrow> int" where
  "getHours tz d = ((d + tz) mod msPerDay) div 3600000"

definition getDay :: "int \<Rightarrow> date \<Rightarrow> int" where
  "getDay tz d = ((d + tz) div msPerDay + 4) mod 7"

definition minusDays :: "date \<Rightarrow> int \<Rightarrow> date" where
  "minusDays d i = d - i * msPerDay"

text \<open>Template literals print a time value as its decimal numeral.\<close>

fun show_nat :: "nat \<Rightarrow> string" where
  "show_nat n =
     (if n < 10 then [''0123456789'' ! n]
      else show_nat (n div 10) @ [''0123456789'' ! (n mod 10)])"

declare show_nat.simps [simp del]

definition show_int :: "int \<Rightarrow> string" where
  "show_int i = (if i < 0 then CHR ''-'' # show_nat (nat (- i)) else show_nat (nat i))"

section \<open>Entities\<close>

datatype source = pedometer | healthkit | googlefit | mock

record StepData =
  id_str :: string
  steps :: int
  distance :: rat
  calories :: int
  activeMinutes :: int
  startDate :: date
  endDate :: date
  source :: source

record HourlyStepData =
  hour :: int
  hourSteps :: int
  timestamp :: date

record DailyStepData = StepData +
  hourlyData :: "HourlyStepData list"
  goalMet :: bool
  goalTarget :: int

record StepUpdate =
  updateSteps :: int
  updateTimestamp :: date
  stepsSinceLastUpdate :: "int option"

section \<open>ExpoPedometerAdapter: range queries\<close>

text \<open>
  The external \<^verbatim>\<open>Pedometer.getStepCountAsync(start, end)\<close> is a parameter of the model:
  for an interval it rejects (\<open>Rejected\<close>, the \<^verbatim>\<open>await\<close> throws) or resolves, to null or
  undefined (\<open>Resolved None\<close>) or to an object carrying \<open>steps\<close> (\<open>Resolved (Some n)\<close>).
\<close>

datatype query_result = Rejected | Resolved "int option"

type_synonym pedometer_query = "date \<Rightarrow> date \<Rightarrow> query_result"

text \<open>\<^verbatim>\<open>result?.steps ?? 0\<close>\<close>

fun steps_or_zero :: "int option \<Rightarrow> int" where
  "steps_or_zero (Some n) = n"
| "steps_or_zero None = 0"

definition expo_getStepCount :: "pedometer_query \<Rightarrow> date \<Rightarrow> date \<Rightarrow> StepData" where
  "expo_getStepCount q startD endD =
     (case q startD endD of
        Rejected \<Rightarrow>
          \<lparr>id_str = show_int startD @ ''-'' @ show_int endD,
           steps = 0, distance = 0, calories = 0, activeMinutes = 0,
           startDate = startD, endDate = endD, source = pedometer\<rparr>
      | Resolved result \<Rightarrow>
          (let n = steps_or_zero result
           in \<lparr>id_str = show_int startD @ ''-'' @ show_int endD,
               steps = n,
               distance = calculateDistance n DEFAULT_STRIDE_LENGTH,
               calories = calculateCalories n DEFAULT_WEIGHT_KG,
               activeMinutes = calculateActiveMinutes n DEFAULT_STEPS_PER_MINUTE,
               startDate = startD, endDate = endD, source = pedometer\<rparr>))"

text \<open>
  \<open>getTodaySteps\<close> reads the clock twice (\<open>today\<close>, then \<open>now\<close>); both readings are
  arguments.
\<close>

definition expo_getTodaySteps :: "pedometer_query \<Rightarrow> int \<Rightarrow> date \<Rightarrow> date \<Rightarrow> StepData" where
  "expo_getTodaySteps q tz today now =
     (let startOfDay = localDate tz today 0 0 0
      in expo_getStepCount q startOfDay now)"

text \<open>The body of the loop of \<open>getHourlyBreakdown\<close>: the sub-query of one hour, with its catch.\<close>

definition expo_hour_entry :: "pedometer_query \<Rightarrow> int \<Rightarrow> date \<Rightarrow> int \<Rightarrow> HourlyStepData" where
  "expo_hour_entry q tz startOfDay h =
     (let hourStart = setHours tz startOfDay h 0 0 0;
          hourEnd = setHours tz startOfDay h 59 59 999
      in case q hourStart hourEnd of
           Resolved result \<Rightarrow>
             \<lparr>hour = h, hourSteps = steps_or_zero result, timestamp = hourStart\<rparr>
         | Rejected \<Rightarrow>
             \<lparr>hour = h, hourSteps = 0, timestamp = hourStart\<rparr>)"

function expo_hourly_loop ::
  "pedometer_query \<Rightarrow> int \<Rightarrow> date \<Rightarrow> int \<Rightarrow> HourlyStepData list \<Rightarrow> HourlyStepData list" where
  "expo_hourly_loop q tz startOfDay h acc =
     (if h < 24
      then expo_hourly_loop q tz startOfDay (h + 1) (acc @ [expo_hour_entry q tz startOfDay h])
      else acc)"
  by pat_completeness auto
termination
  by (relation "measure (\<lambda>(q, tz, startOfDay, h, acc). nat (24 - h))") auto

declare expo_hourly_loop.simps [simp del]

definition expo_getHourlyBreakdown :: "pedometer_query \<Rightarrow> int \<Rightarrow> date \<Rightarrow> HourlyStepData list" where
  "expo_getHourlyBreakdown q tz startOfDay = expo_hourly_loop q tz startOfDay 0 []"

definition expo_day_entry :: "pedometer_query \<Rightarrow> int \<Rightarrow> date \<Rightarrow> int \<Rightarrow> DailyStepData" where
  "expo_day_entry q tz today i =
     (let d = minusDays today i;
          startOfDay = localDate tz d 0 0 0;
          endOfDay = localDate tz d 23 59 59;
          dayData = expo_getStepCount q startOfDay endOfDay;
          target = 10000;
          hourly = expo_getHourlyBreakdown q tz startOfDay
      in \<lparr>id_str = id_str dayData, steps = steps dayData, distance = distance dayData,
          calories = calories dayData, activeMinutes = activeMinutes dayData,
          startDate = startDate dayData, endDate = endDate dayData, source = source dayData,
          hourlyData = hourly, goalMet = (target \<le> steps dayData), goalTarget = target\<rparr>)"

function expo_history_loop ::
  "pedometer_query \<Rightarrow> int \<Rightarrow> date \<Rightarrow> int \<Rightarrow> int \<Rightarrow> DailyStepData list \<Rightarrow> DailyStepData list" where
  "expo_history_loop q tz today days i acc =
     (if i < days then expo_history_loop q tz today days (i + 1) (acc @ [expo_day_entry q tz today i])
      else acc)"
  by pat_completeness auto
termination
  by (relation "measure (\<lambda>(q, tz, today, days, i, acc). nat (days - i))") auto

declare expo_history_loop.simps [simp del]

definition expo_getHistoricalSteps :: "pedometer_query \<Rightarrow> int \<Rightarrow> date \<Rightarrow> int \<Rightarrow> DailyStepData list" where
  "expo_getHistoricalSteps q tz today days = rev (expo_history_loop q tz today days 0 [])"

section \<open>MockSensorAdapter: range queries\<close>

text \<open>
  Each \<^verbatim>\<open>Math.random()\<close> is an argument: a double \<open>r\<close> with \<open>0 \<le> r < 1\<close>.
\<close>

definition mock_getStepCount :: "rat \<Rightarrow> date \<Rightarrow> date \<Rightarrow> StepData" where
  "mock_getStepCount r startD endD =
     (let hours = fl (\<bar>fl (of_int endD - of_int startD)\<bar> / 3600000);
          baseSteps = \<lfloor>fl (hours * 400)\<rfloor>;
          variation = \<lfloor>fl (r * 200)\<rfloor> - 100;
          n = max 0 (baseSteps + variation)
      in \<lparr>id_str = ''mock-'' @ show_int startD @ ''-'' @ show_int endD,
          steps = n,
          distance = calculateDistance n DEFAULT_STRIDE_LENGTH,
          calories = calculateCalories n DEFAULT_WEIGHT_KG,
          activeMinutes = calculateActiveMinutes n DEFAULT_STEPS_PER_MINUTE,
          startDate = startD, endDate = endD, source = mock\<rparr>)"

definition stepsPerHour :: "int list" where
  "stepsPerHour =
     [100, 100, 50, 50, 50, 200,
      800, 1200,
      1500, 1200, 800, 600,
      1000,
      500, 400, 400, 500,
      1200, 1500,
      800, 600, 400, 200,
      100, 100]"

text \<open>\<^verbatim>\<open>stepsPerHour[hour] || 0\<close>: an index outside the array reads undefined, hence 0.\<close>

definition entry_or_zero :: "int list \<Rightarrow> int \<Rightarrow> int" where
  "entry_or_zero xs i = (if 0 \<le> i \<and> i < int (length xs) then xs ! nat i else 0)"

function daily_steps_loop :: "int \<Rightarrow> int \<Rightarrow> int \<Rightarrow> int" where
  "daily_steps_loop currentHour h totalSteps =
     (if h \<le> currentHour \<and> h < 24
      then daily_steps_loop currentHour (h + 1) (totalSteps + entry_or_zero stepsPerHour h)
      else totalSteps)"
  by pat_completeness auto
termination
  by (relation "measure (\<lambda>(currentHour, h, totalSteps). nat (24 - h))") auto

declare daily_steps_loop.simps [simp del]

definition generateRealisticDailySteps :: "int \<Rightarrow> int" where
  "generateRealisticDailySteps currentHour = daily_steps_loop currentHour 0 0"

definition mock_getTodaySteps :: "int \<Rightarrow> date \<Rightarrow> StepData" where
  "mock_getTodaySteps tz now =
     (let startOfDay = localDate tz now 0 0 0;
          h = getHours tz now;
          n = generateRealisticDailySteps h
      in \<lparr>id_str = ''mock-today-'' @ show_int now,
          steps = n,
          distance = calculateDistance n DEFAULT_STRIDE_LENGTH,
          calories = calculateCalories n DEFAULT_WEIGHT_KG,
          activeMinutes = calculateActiveMinutes n DEFAULT_STEPS_PER_MINUTE,
          startDate = startOfDay, endDate = now, source = mock\<rparr>)"

text \<open>The literals of the table are the doubles nearest to the decimal fractions.\<close>

definition distribution :: "rat list" where
  "distribution = map (\<lambda>c. fl (c / 100))
     [1, 1, 1, 1, 1, 2,
      8, 12,
      15, 12, 8, 6,
      10,
      5, 4, 4, 5,
      12, 15,
      8, 6, 4, 2,
      1, 1]"

text \<open>
  \<open>distribution.map((percentage, hour) => ...)\<close>; every element reads the clock for its
  timestamp (\<open>clock hour\<close>) and moves that reading to \<open>hour\<close> o'clock.
\<close>

definition generateHourlyData :: "int \<Rightarrow> (int \<Rightarrow> date) \<Rightarrow> int \<Rightarrow> HourlyStepData list" where
  "generateHourlyData tz clock totalSteps =
     map (\<lambda>(percentage, h).
            \<lparr>hour = h, hourSteps = \<lfloor>fl (of_int totalSteps * percentage)\<rfloor>,
             timestamp = setHours tz (clock h) h 0 0 0\<rparr>)
         (zip distribution [0 .. int (length distribution) - 1])"

definition mock_day_entry ::
  "(int \<Rightarrow> rat) \<Rightarrow> int \<Rightarrow> (int \<Rightarrow> int \<Rightarrow> date) \<Rightarrow> date \<Rightarrow> int \<Rightarrow> DailyStepData" where
  "mock_day_entry random tz clock today i =
     (let d = minusDays today i;
          startOfDay = localDate tz d 0 0 0;
          endOfDay = localDate tz d 23 59 59;
          isWeekend = (getDay tz d = 0 \<or> getDay tz d = 6);
          baseSteps = (if isWeekend then \<lfloor>fl (random i * 11000)\<rfloor> + 4000
                       else \<lfloor>fl (random i * 5000)\<rfloor> + 7000);
          n = baseSteps;
          target = 10000
      in \<lparr>id_str = ''mock-'' @ show_int d,
          steps = n,
          distance = calculateDistance n DEFAULT_STRIDE_LENGTH,
          calories = calculateCalories n DEFAULT_WEIGHT_KG,
          activeMinutes = calculateActiveMinutes n DEFAULT_STEPS_PER_MINUTE,
          startDate = startOfDay, endDate = endOfDay, source = mock,
          hourlyData = generateHourlyData tz (clock i) n,
          goalMet = (target \<le> n), goalTarget = target\<rparr>)"

function mock_history_loop ::
  "(int \<Rightarrow> rat) \<Rightarrow> int \<Rightarrow> (int \<Rightarrow> int \<Rightarrow> date) \<Rightarrow> date \<Rightarrow> int \<Rightarrow> int \<Rightarrow> DailyStepData list
   \<Rightarrow> DailyStepData list" where
  "mock_history_loop random tz clock today days i acc =
     (if i < days
      then mock_history_loop random tz clock today days (i + 1)
             (acc @ [mock_day_entry random tz clock today i])
      else acc)"
  by pat_completeness auto
termination
  by (relation "measure (\<lambda>(random, tz, clock, today, days, i, acc). nat (days - i))") auto

declare mock_history_loop.simps [simp del]

definition mock_getHistoricalSteps ::
  "(int \<Rightarrow> rat) \<Rightarrow> int \<Rightarrow> (int \<Rightarrow> int \<Rightarrow> date) \<Rightarrow> date \<Rightarrow> int \<Rightarrow> DailyStepData list" where
  "mock_getHistoricalSteps random tz clock today days =
     rev (mock_history_loop random tz clock today days 0 [])"

section \<open>Subscriptions\<close>

text \<open>
  A call of an \<^verbatim>\<open>async\<close> method runs without interruption up to its first \<^verbatim>\<open>await\<close>;
  there it suspends, and its caller goes on. The methods of \<open>ExpoPedometerAdapter\<close> and
  \<open>stopStepCounting\<close> of \<open>MockSensorAdapter\<close> contain no \<^verbatim>\<open>await\<close>: each call is one
  step. \<open>startStepCounting\<close> of \<open>MockSensorAdapter\<close> awaits the stop of a running
  subscription and is two steps then, with whatever its caller does in between.
\<close>

subsection \<open>ExpoPedometerAdapter\<close>

text \<open>
  The external \<^verbatim>\<open>Pedometer\<close> keeps the listeners registered by \<^verbatim>\<open>watchStepCount\<close>; each
  registration returns a fresh handle whose \<^verbatim>\<open>remove()\<close> deletes that listener and is
  harmless when repeated. The listener the adapter registers is the closure around the
  caller's \<open>callback\<close>, so a listener is identified by that callback.
\<close>

record 'cb Pedometer =
  watchers :: "(nat \<times> 'cb) list"
  nextHandle :: nat

record ExpoPedometerAdapter =
  subscription :: "nat option"
  lastStepCount :: int

definition watchStepCount :: "'cb \<Rightarrow> 'cb Pedometer \<Rightarrow> nat \<times> 'cb Pedometer" where
  "watchStepCount cb p =
     (nextHandle p, \<lparr>watchers = watchers p @ [(nextHandle p, cb)], nextHandle = Suc (nextHandle p)\<rparr>)"

definition remove :: "nat \<Rightarrow> 'cb Pedometer \<Rightarrow> 'cb Pedometer" where
  "remove h p = p\<lparr>watchers := filter (\<lambda>w. fst w \<noteq> h) (watchers p)\<rparr>"

definition expo_startStepCounting ::
  "'cb \<Rightarrow> ExpoPedometerAdapter \<times> 'cb Pedometer \<Rightarrow> ExpoPedometerAdapter \<times> 'cb Pedometer" where
  "expo_startStepCounting callback = (\<lambda>(this, p).
     (let p1 = (case subscription this of Some h \<Rightarrow> remove h p | None \<Rightarrow> p);
          (h', p2) = watchStepCount callback p1
      in (this\<lparr>subscription := Some h'\<rparr>, p2)))"

text \<open>The closure returned by \<open>startStepCounting\<close>; it reads \<^verbatim>\<open>this.subscription\<close> when called.\<close>

definition expo_cleanup ::
  "ExpoPedometerAdapter \<times> 'cb Pedometer \<Rightarrow> ExpoPedometerAdapter \<times> 'cb Pedometer" where
  "expo_cleanup = (\<lambda>(this, p).
     (case subscription this of
        Some h \<Rightarrow> (this\<lparr>subscription := None\<rparr>, remove h p)
      | None \<Rightarrow> (this, p)))"

definition expo_stopStepCounting ::
  "ExpoPedometerAdapter \<times> 'cb Pedometer \<Rightarrow> ExpoPedometerAdapter \<times> 'cb Pedometer" where
  "expo_stopStepCounting = (\<lambda>(this, p).
     (let (this1, p1) = (case subscription this of
                           Some h \<Rightarrow> (this\<lparr>subscription := None\<rparr>, remove h p)
                         | None \<Rightarrow> (this, p))
      in (this1\<lparr>lastStepCount := 0\<rparr>, p1)))"

text \<open>
  One listener invocation with \<^verbatim>\<open>result.steps = n\<close> at clock reading \<open>now\<close>: the update
  delivered to the callback, and the adapter afterwards.
\<close>

definition expo_listener :: "int \<Rightarrow> date \<Rightarrow> ExpoPedometerAdapter \<Rightarrow> StepUpdate \<times> ExpoPedometerAdapter" where
  "expo_listener n now this =
     (let delta = n - lastStepCount this
      in (\<lparr>updateSteps = n, updateTimestamp = now,
           stepsSinceLastUpdate = (if 0 < delta then Some delta else None)\<rparr>,
          this\<lparr>lastStepCount := n\<rparr>))"

text \<open>
  An external tick: the pedometer calls every registered listener, in registration order,
  with the cumulative count. The result lists the deliveries (callback, update).
\<close>

fun expo_fire ::
  "int \<Rightarrow> date \<Rightarrow> (nat \<times> 'cb) list \<Rightarrow> ExpoPedometerAdapter \<Rightarrow> ('cb \<times> StepUpdate) list \<times> ExpoPedometerAdapter" where
  "expo_fire n now [] this = ([], this)"
| "expo_fire n now (w # ws) this =
     (let (u, this1) = expo_listener n now this;
          (ds, this2) = expo_fire n now ws this1
      in ((snd w, u) # ds, this2))"

definition expo_tick ::
  "int \<Rightarrow> date \<Rightarrow> ExpoPedometerAdapter \<times> 'cb Pedometer
   \<Rightarrow> ('cb \<times> StepUpdate) list \<times> (ExpoPedometerAdapter \<times> 'cb Pedometer)" where
  "expo_tick n now = (\<lambda>(this, p).
     (let (ds, this1) = expo_fire n now (watchers p) this in (ds, (this1, p))))"

datatype 'cb expo_call = StartStepCounting 'cb | StopStepCounting | Cleanup | Tick int date

fun expo_step ::
  "ExpoPedometerAdapter \<times> 'cb Pedometer \<Rightarrow> 'cb expo_call \<Rightarrow> ExpoPedometerAdapter \<times> 'cb Pedometer" where
  "expo_step s (StartStepCounting cb) = expo_startStepCounting cb s"
| "expo_step s StopStepCounting = expo_stopStepCounting s"
| "expo_step s Cleanup = expo_cleanup s"
| "expo_step s (Tick n now) = snd (expo_tick n now s)"

definition expo_new :: "ExpoPedometerAdapter \<times> 'cb Pedometer" where
  "expo_new = (\<lparr>subscription = None, lastStepCount = 0\<rparr>, \<lparr>watchers = [], nextHandle = 0\<rparr>)"

definition expo_run :: "'cb expo_call list \<Rightarrow> ExpoPedometerAdapter \<times> 'cb Pedometer" where
  "expo_run calls = foldl expo_step expo_new calls"

subsection \<open>MockSensorAdapter\<close>

text \<open>
  The timers of \<^verbatim>\<open>setInterval\<close> play the part of the pedometer's listeners:
  \<^verbatim>\<open>setInterval\<close> returns a fresh timer, \<^verbatim>\<open>clearInterval\<close> deletes it. The field
  \<open>intervalId\<close> has type \<^verbatim>\<open>NodeJS.Timeout | null\<close>, so its truth test is the test for null.
  Beside the timers the event loop holds the calls of \<open>startStepCounting\<close> that are
  suspended at their \<^verbatim>\<open>await\<close>, in the order in which they will resume (\<open>suspended\<close>, each
  with its \<open>callback\<close>).
\<close>

record 'cb EventLoop =
  timers :: "(nat \<times> 'cb) list"
  nextTimer :: nat
  suspended :: "'cb list"

record MockSensorAdapter =
  intervalId :: "nat option"
  currentSteps :: int
  isRunning :: bool

definition setInterval :: "'cb \<Rightarrow> 'cb EventLoop \<Rightarrow> nat \<times> 'cb EventLoop" where
  "setInterval cb t =
     (nextTimer t, t\<lparr>timers := timers t @ [(nextTimer t, cb)], nextTimer := Suc (nextTimer t)\<rparr>)"

definition clearInterval :: "nat \<Rightarrow> 'cb EventLoop \<Rightarrow> 'cb EventLoop" where
  "clearInterval h t = t\<lparr>timers := filter (\<lambda>w. fst w \<noteq> h) (timers t)\<rparr>"

definition mock_stopStepCounting ::
  "MockSensorAdapter \<times> 'cb EventLoop \<Rightarrow> MockSensorAdapter \<times> 'cb EventLoop" where
  "mock_stopStepCounting = (\<lambda>(this, t).
     (let (this1, t1) = (case intervalId this of
                           Some h \<Rightarrow> (this\<lparr>intervalId := None\<rparr>, clearInterval h t)
                         | None \<Rightarrow> (this, t))
      in (this1\<lparr>isRunning := False, currentSteps := 0\<rparr>, t1)))"

text \<open>
  \<open>startStepCounting\<close> after its \<^verbatim>\<open>if\<close>: the flag, the reset of the total, the new timer.
\<close>

definition mock_start_rest ::
  "'cb \<Rightarrow> MockSensorAdapter \<times> 'cb EventLoop \<Rightarrow> MockSensorAdapter \<times> 'cb EventLoop" where
  "mock_start_rest callback = (\<lambda>(this, t).
     (let this1 = this\<lparr>isRunning := True, currentSteps := 0\<rparr>;
          (h, t1) = setInterval callback t
      in (this1\<lparr>intervalId := Some h\<rparr>, t1)))"

text \<open>
  What a call of \<open>startStepCounting\<close> does before it returns its promise. If the adapter
  is running, \<open>stopStepCounting\<close> runs and the call suspends at the \<^verbatim>\<open>await\<close>; if not, there
  is no \<^verbatim>\<open>await\<close> and the whole body runs.
\<close>

definition mock_start_call ::
  "'cb \<Rightarrow> MockSensorAdapter \<times> 'cb EventLoop \<Rightarrow> MockSensorAdapter \<times> 'cb EventLoop" where
  "mock_start_call callback s =
     (if isRunning (fst s)
      then (let (this, t) = mock_stopStepCounting s
            in (this, t\<lparr>suspended := suspended t @ [callback]\<rparr>))
      else mock_start_rest callback s)"

text \<open>
  The caller yields to the event loop (it awaits, or its synchronous code ends): the
  suspended calls resume, in order, each with the rest of its body.
\<close>

fun mock_resume ::
  "'cb list \<Rightarrow> MockSensorAdapter \<times> 'cb EventLoop \<Rightarrow> MockSensorAdapter \<times> 'cb EventLoop" where
  "mock_resume [] s = s"
| "mock_resume (callback # callbacks) s = mock_resume callbacks (mock_start_rest callback s)"

definition mock_yield ::
  "MockSensorAdapter \<times> 'cb EventLoop \<Rightarrow> MockSensorAdapter \<times> 'cb EventLoop" where
  "mock_yield = (\<lambda>(this, t). mock_resume (suspended t) (this, t\<lparr>suspended := []\<rparr>))"

text \<open>\<^verbatim>\<open>await adapter.startStepCounting(callback)\<close>: the call, awaited at once.\<close>

definition mock_startStepCounting ::
  "'cb \<Rightarrow> MockSensorAdapter \<times> 'cb EventLoop \<Rightarrow> MockSensorAdapter \<times> 'cb EventLoop" where
  "mock_startStepCounting callback s = mock_yield (mock_start_call callback s)"

text \<open>One run of the interval callback, with \<open>r\<close> the value of \<^verbatim>\<open>Math.random()\<close>.\<close>

definition mock_interval :: "rat \<Rightarrow> date \<Rightarrow> MockSensorAdapter \<Rightarrow> StepUpdate \<times> MockSensorAdapter" where
  "mock_interval r now this =
     (let newSteps = \<lfloor>fl (r * 5)\<rfloor> + 1;
          this1 = this\<lparr>currentSteps := currentSteps this + newSteps\<rparr>
      in (\<lparr>updateSteps = currentSteps this1, updateTimestamp = now,
           stepsSinceLastUpdate = Some newSteps\<rparr>, this1))"

text \<open>
  A period of 3000 ms elapses: every live timer runs once (timer \<open>h\<close> draws \<open>random h\<close>).
  Timer callbacks are tasks of their own, so the suspended calls have resumed before.
\<close>

fun mock_fire ::
  "(nat \<Rightarrow> rat) \<Rightarrow> date \<Rightarrow> (nat \<times> 'cb) list \<Rightarrow> MockSensorAdapter
   \<Rightarrow> ('cb \<times> StepUpdate) list \<times> MockSensorAdapter" where
  "mock_fire random now [] this = ([], this)"
| "mock_fire random now (w # ws) this =
     (let (u, this1) = mock_interval (random (fst w)) now this;
          (ds, this2) = mock_fire random now ws this1
      in ((snd w, u) # ds, this2))"

definition mock_tick ::
  "(nat \<Rightarrow> rat) \<Rightarrow> date \<Rightarrow> MockSensorAdapter \<times> 'cb EventLoop
   \<Rightarrow> ('cb \<times> StepUpdate) list \<times> (MockSensorAdapter \<times> 'cb EventLoop)" where
  "mock_tick random now s =
     (let (this, t) = mock_yield s;
          (ds, this1) = mock_fire random now (timers t) this
      in (ds, (this1, t)))"

text \<open>A history of calls each of which is awaited before the next is made, and of ticks.\<close>

datatype 'cb mock_call = MockStart 'cb | MockStop | MockTick "nat \<Rightarrow> rat" date

fun mock_step ::
  "MockSensorAdapter \<times> 'cb EventLoop \<Rightarrow> 'cb mock_call \<Rightarrow> MockSensorAdapter \<times> 'cb EventLoop" where
  "mock_step s (MockStart cb) = mock_startStepCounting cb s"
| "mock_step s MockStop = mock_yield (mock_stopStepCounting s)"
| "mock_step s (MockTick random now) = snd (mock_tick random now s)"

definition mock_new :: "MockSensorAdapter \<times> 'cb EventLoop" where
  "mock_new = (\<lparr>intervalId = None, currentSteps = 0, isRunning = False\<rparr>,
               \<lparr>timers = [], nextTimer = 0, suspended = []\<rparr>)"

definition mock_run :: "'cb mock_call list \<Rightarrow> MockSensorAdapter \<times> 'cb EventLoop" where
  "mock_run calls = foldl mock_step mock_new calls"

text \<open>
  Two starts that overlap: \<^verbatim>\<open>await start(c1); start(c2); start(c3);\<close> and then the caller
  yields. The second call suspends at its \<^verbatim>\<open>await\<close>, the third is made before it resumes.
\<close>

definition mock_overlap :: "'cb \<Rightarrow> 'cb \<Rightarrow> 'cb \<Rightarrow> MockSensorAdapter \<times> 'cb EventLoop" where
  "mock_overlap c1 c2 c3 =
     mock_yield (mock_start_call c3 (mock_start_call c2 (mock_startStepCounting c1 mock_new)))"

text \<open>
  The callback that a tick should reach after a history of calls: the one of the latest
  start, unless a stop (or cleanup) came after it.
\<close>

fun expo_current :: "'cb expo_call list \<Rightarrow> 'cb option \<Rightarrow> 'cb option" where
  "expo_current [] c = c"
| "expo_current (StartStepCounting cb # cs) c = expo_current cs (Some cb)"
| "expo_current (StopStepCounting # cs) c = expo_current cs None"
| "expo_current (Cleanup # cs) c = expo_current cs None"
| "expo_current (Tick n now # cs) c = expo_current cs c"

fun mock_current :: "'cb mock_call list \<Rightarrow> 'cb option \<Rightarrow> 'cb option" where
  "mock_current [] c = c"
| "mock_current (MockStart cb # cs) c = mock_current cs (Some cb)"
| "mock_current (MockStop # cs) c = mock_current cs None"
| "mock_current (MockTick random now # cs) c = mock_current cs c"

text \<open>
  The link between an adapter and its environment that every call of
  \<open>ExpoPedometerAdapter\<close> and every awaited call of \<open>MockSensorAdapter\<close> preserves: nothing
  is registered and the handle is null, or exactly the listener of the handle is
  registered; and no call is suspended.
\<close>

definition expo_linked :: "ExpoPedometerAdapter \<times> 'cb Pedometer \<Rightarrow> 'cb option \<Rightarrow> bool" where
  "expo_linked s c =
     (case c of
        None \<Rightarrow> subscription (fst s) = None \<and> watchers (snd s) = []
      | Some cb \<Rightarrow> (case subscription (fst s) of
                     None \<Rightarrow> False
                   | Some h \<Rightarrow> watchers (snd s) = [(h, cb)]))"

definition mock_linked :: "MockSensorAdapter \<times> 'cb EventLoop \<Rightarrow> 'cb option \<Rightarrow> bool" where
  "mock_linked s c =
     (case c of
        None \<Rightarrow> intervalId (fst s) = None \<and> \<not> isRunning (fst s) \<and> timers (snd s) = [] \<and>
                suspended (snd s) = []
      | Some cb \<Rightarrow> isRunning (fst s) \<and> suspended (snd s) = [] \<and>
                   (case intervalId (fst s) of
                      None \<Rightarrow> False
                    | Some h \<Rightarrow> timers (snd s) = [(h, cb)]))"

text \<open>The derived fields of a record agree with its \<open>steps\<close> under the default parameters.\<close>

definition derived_from_steps :: "'a StepData_scheme \<Rightarrow> bool" where
  "derived_from_steps d =
     (distance d = calculateDistance (steps d) DEFAULT_STRIDE_LENGTH \<and>
      calories d = calculateCalories (steps d) DEFAULT_WEIGHT_KG \<and>
      activeMinutes d = calculateActiveMinutes (steps d) DEFAULT_STEPS_PER_MINUTE)"

section \<open>Properties\<close>

subsection \<open>Subscription lifecycle\<close>

lemma expo_fire_frame:
  "subscription (snd (expo_fire n now ws this)) = subscription this"
  by (induction ws arbitrary: this) (simp_all add: expo_listener_def Let_def split_beta)

lemma expo_linked_step:
  assumes "expo_linked s c"
  shows "expo_linked (expo_step s call) (expo_current [call] c)"
proof (cases s)
  case (Pair this p)
  show ?thesis
  proof (cases call)
    case (StartStepCounting cb)
    with assms Pair show ?thesis
      by (auto simp: expo_linked_def expo_startStepCounting_def watchStepCount_def remove_def
          split: option.splits)
  next
    case StopStepCounting
    with assms Pair show ?thesis
      by (auto simp: expo_linked_def expo_stopStepCounting_def remove_def split: option.splits)
  next
    case Cleanup
    with assms Pair show ?thesis
      by (auto simp: expo_linked_def expo_cleanup_def remove_def split: option.splits)
  next
    case (Tick n now)
    with assms Pair show ?thesis
      using expo_fire_frame [of n now "watchers p" this]
      by (auto simp: expo_linked_def expo_tick_def split_beta split: option.splits)
  qed
qed

lemma expo_linked_foldl:
  "expo_linked s c \<Longrightarrow> expo_linked (foldl expo_step s calls) (expo_current calls c)"
proof (induction calls arbitrary: s c)
  case Nil
  then show ?case by simp
next
  case (Cons call calls)
  from expo_linked_step [OF Cons.prems, of call]
  have "expo_linked (expo_step s call) (expo_current [call] c)" .
  from Cons.IH [OF this] show ?case by (cases call) simp_all
qed

lemma expo_linked_run: "expo_linked (expo_run calls) (expo_current calls None)"
  unfolding expo_run_def by (rule expo_linked_foldl) (simp add: expo_linked_def expo_new_def)

lemma expo_fire_callbacks: "map fst (fst (expo_fire n now ws this)) = map snd ws"
  by (induction ws arbitrary: this) (simp_all add: Let_def split_beta)

lemma mock_fire_frame:
  "intervalId (snd (mock_fire random now ws this)) = intervalId this \<and>
   isRunning (snd (mock_fire random now ws this)) = isRunning this"
  by (induction ws arbitrary: this) (simp_all add: mock_interval_def Let_def split_beta)

lemma mock_yield_idle: "suspended (snd s) = [] \<Longrightarrow> mock_yield s = s"
  by (cases s) (simp add: mock_yield_def)

lemma mock_linked_idle: "mock_linked s c \<Longrightarrow> suspended (snd s) = []"
  by (simp add: mock_linked_def split: option.splits)

lemma mock_linked_start:
  assumes "mock_linked s c"
  shows "mock_linked (mock_startStepCounting cb s) (Some cb)"
proof (cases s)
  case (Pair this t)
  with assms show ?thesis
    by (auto simp: mock_linked_def mock_startStepCounting_def mock_start_call_def
        mock_yield_def mock_start_rest_def mock_stopStepCounting_def setInterval_def
        clearInterval_def split: option.splits)
qed

lemma mock_linked_stop:
  assumes "mock_linked s c"
  shows "mock_linked (mock_stopStepCounting s) None"
proof (cases s)
  case (Pair this t)
  with assms show ?thesis
    by (auto simp: mock_linked_def mock_stopStepCounting_def clearInterval_def
        split: option.splits)
qed

lemma mock_linked_step:
  assumes "mock_linked s c"
  shows "mock_linked (mock_step s call) (mock_current [call] c)"
proof (cases call)
  case (MockStart cb)
  with mock_linked_start [OF assms, of cb] show ?thesis by simp
next
  case MockStop
  from mock_linked_stop [OF assms] have l: "mock_linked (mock_stopStepCounting s) None" .
  from mock_yield_idle [OF mock_linked_idle [OF l]] l MockStop show ?thesis by simp
next
  case (MockTick random now)
  obtain this t where s: "s = (this, t)" by (cases s)
  from mock_yield_idle [OF mock_linked_idle [OF assms]]
  have y: "mock_yield (this, t) = (this, t)" by (simp only: s)
  from assms MockTick show ?thesis
    using mock_fire_frame [of random now "timers t" this]
    by (auto simp: mock_linked_def mock_tick_def y s split_beta split: option.splits)
qed

lemma mock_linked_foldl:
  "mock_linked s c \<Longrightarrow> mock_linked (foldl mock_step s calls) (mock_current calls c)"
proof (induction calls arbitrary: s c)
  case Nil
  then show ?case by simp
next
  case (Cons call calls)
  from mock_linked_step [OF Cons.prems, of call]
  have "mock_linked (mock_step s call) (mock_current [call] c)" .
  from Cons.IH [OF this] show ?case by (cases call) simp_all
qed

lemma mock_linked_run: "mock_linked (mock_run calls) (mock_current calls None)"
  unfolding mock_run_def by (rule mock_linked_foldl) (simp add: mock_linked_def mock_new_def)

lemma mock_fire_callbacks: "map fst (fst (mock_fire random now ws this)) = map snd ws"
  by (induction ws arbitrary: this) (simp_all add: Let_def split_beta)

text \<open>
  What holds of the single subscription. After any sequence of calls of
  \<open>ExpoPedometerAdapter\<close> (start, stop, the cleanup closure, ticks), and after any sequence
  of calls of \<open>MockSensorAdapter\<close> that are each awaited before the next is made, the
  environment holds exactly the listener of the latest start not followed by a stop, or
  none; a tick reaches that callback once and no other.
\<close>

lemma awaited_calls_keep_one_listener:
  "map snd (watchers (snd (expo_run calls))) =
     (case expo_current calls None of None \<Rightarrow> [] | Some cb \<Rightarrow> [cb]) \<and>
   map fst (fst (expo_tick n now (expo_run calls))) =
     (case expo_current calls None of None \<Rightarrow> [] | Some cb \<Rightarrow> [cb]) \<and>
   map snd (timers (snd (mock_run mcalls))) =
     (case mock_current mcalls None of None \<Rightarrow> [] | Some cb \<Rightarrow> [cb]) \<and>
   map fst (fst (mock_tick random now' (mock_run mcalls))) =
     (case mock_current mcalls None of None \<Rightarrow> [] | Some cb \<Rightarrow> [cb])"
proof -
  have e: "map snd (watchers (snd (expo_run calls))) =
     (case expo_current calls None of None \<Rightarrow> [] | Some cb \<Rightarrow> [cb])"
    using expo_linked_run [of calls] by (auto simp: expo_linked_def split: option.splits)
  have m: "map snd (timers (snd (mock_run mcalls))) =
     (case mock_current mcalls None of None \<Rightarrow> [] | Some cb \<Rightarrow> [cb])"
    using mock_linked_run [of mcalls] by (auto simp: mock_linked_def split: option.splits)
  have et: "map fst (fst (expo_tick n now (expo_run calls))) = map snd (watchers (snd (expo_run calls)))"
    using expo_fire_callbacks [of n now "watchers (snd (expo_run calls))" "fst (expo_run calls)"]
    by (simp add: expo_tick_def split_beta)
  have y: "mock_yield (mock_run mcalls) = mock_run mcalls"
    by (rule mock_yield_idle [OF mock_linked_idle [OF mock_linked_run]])
  have mt: "map fst (fst (mock_tick random now' (mock_run mcalls))) = map snd (timers (snd (mock_run mcalls)))"
    using mock_fire_callbacks [of random now' "timers (snd (mock_run mcalls))" "fst (mock_run mcalls)"]
    by (simp add: mock_tick_def y split_beta)
  from e m et mt show ?thesis by simp
qed

lemma mock_overlap_state:
  "mock_overlap c1 c2 c3 =
     (\<lparr>intervalId = Some 2, currentSteps = 0, isRunning = True\<rparr>,
      \<lparr>timers = [(1, c3), (2, c2)], nextTimer = 3, suspended = []\<rparr>)"
  by (simp add: mock_overlap_def mock_new_def mock_startStepCounting_def mock_start_call_def
      mock_yield_def mock_start_rest_def mock_stopStepCounting_def setInterval_def
      clearInterval_def)

text \<open>
  C2. The claim: on every adapter instance at most one subscription is live at any time;
  a start while one is live tears the old one down before it registers the new one, so
  that after any sequence of start and stop calls only the callback registered last fires,
  and no listener is leaked. \<open>MockSensorAdapter.startStepCounting\<close> suspends at its
  \<^verbatim>\<open>await\<close> after the old timer is cleared and \<open>isRunning\<close> is false again. A start made
  before it resumes finds nothing running and sets its own timer; the resumed call then
  stores a second timer over the first handle without clearing it. After
  \<^verbatim>\<open>await start(c1); start(c2); start(c3)\<close> two timers are live, a tick calls both \<open>c3\<close> and
  \<open>c2\<close>, and \<open>stopStepCounting\<close> clears the timer of \<open>c2\<close> only: that of \<open>c3\<close> stays, with no
  handle left to clear it.
\<close>

theorem overlapping_starts_leak_a_timer:
  "map snd (timers (snd (mock_overlap c1 c2 c3))) = [c3, c2] \<and>
   map fst (fst (mock_tick random now (mock_overlap c1 c2 c3))) = [c3, c2] \<and>
   map snd (timers (snd (mock_stopStepCounting (mock_overlap c1 c2 c3)))) = [c3] \<and>
   intervalId (fst (mock_stopStepCounting (mock_overlap c1 c2 c3))) = None \<and>
   map snd (timers (snd (mock_stopStepCounting (mock_stopStepCounting (mock_overlap c1 c2 c3))))) = [c3]"
  unfolding mock_overlap_state
  by (simp add: mock_tick_def mock_yield_def mock_stopStepCounting_def clearInterval_def
      mock_interval_def Let_def)

text \<open>
  C10. In any reachable state the cleanup closure of \<open>ExpoPedometerAdapter\<close> nulls the
  handle and leaves no listener registered, and changes nothing else: \<open>lastStepCount\<close>
  keeps its value, whereas \<open>stopStepCounting\<close> sets it to 0. \<open>startStepCounting\<close> does not
  touch it either, so after cleanup and a new start the first tick computes its delta from
  the old baseline.
\<close>

theorem cleanup_keeps_baseline:
  "fst (expo_cleanup (expo_run calls)) = (fst (expo_run calls))\<lparr>subscription := None\<rparr> \<and>
   watchers (snd (expo_cleanup (expo_run calls))) = [] \<and>
   nextHandle (snd (expo_cleanup (expo_run calls))) = nextHandle (snd (expo_run calls)) \<and>
   lastStepCount (fst (expo_cleanup (expo_run calls))) = lastStepCount (fst (expo_run calls)) \<and>
   lastStepCount (fst (expo_stopStepCounting (expo_run calls))) = 0 \<and>
   lastStepCount (fst (expo_startStepCounting cb (expo_cleanup (expo_run calls)))) =
     lastStepCount (fst (expo_run calls)) \<and>
   fst (expo_tick n now (expo_startStepCounting cb (expo_cleanup (expo_run calls)))) =
     [(cb, \<lparr>updateSteps = n, updateTimestamp = now,
            stepsSinceLastUpdate =
              (if 0 < n - lastStepCount (fst (expo_run calls))
               then Some (n - lastStepCount (fst (expo_run calls))) else None)\<rparr>)]"
proof -
  obtain this p where s: "expo_run calls = (this, p)" by (cases "expo_run calls")
  have l: "expo_linked (this, p) (expo_current calls None)"
    using expo_linked_run [of calls] s by simp
  show ?thesis
    using l unfolding s
    by (auto simp: expo_linked_def expo_cleanup_def expo_stopStepCounting_def
        expo_startStepCounting_def watchStepCount_def remove_def expo_tick_def expo_listener_def
        Let_def split_beta split: option.splits)
qed

text \<open>
  For instance, with a cumulative count of 500 seen before the cleanup, the first tick of the
  next subscription, at 520, reports a delta of 20; after \<open>stopStepCounting\<close> it reports 520.
\<close>

lemma stale_baseline_example:
  "fst (expo_tick 520 t2
         (expo_run [StartStepCounting a, Tick 500 t1, Cleanup, StartStepCounting b])) =
     [(b, \<lparr>updateSteps = 520, updateTimestamp = t2, stepsSinceLastUpdate = Some 20\<rparr>)] \<and>
   fst (expo_tick 520 t2
         (expo_run [StartStepCounting a, Tick 500 t1, StopStepCounting, StartStepCounting b])) =
     [(b, \<lparr>updateSteps = 520, updateTimestamp = t2, stepsSinceLastUpdate = Some 520\<rparr>)]"
  by (simp add: expo_run_def expo_new_def expo_startStepCounting_def expo_cleanup_def
      expo_stopStepCounting_def watchStepCount_def remove_def expo_tick_def expo_listener_def
      Let_def)

subsection \<open>Loops as maps\<close>

lemma expo_hourly_loop_eq:
  "expo_hourly_loop q tz sod h acc = acc @ map (expo_hour_entry q tz sod) [h..23]"
proof (induction q tz sod h acc rule: expo_hourly_loop.induct)
  case (1 q tz sod h acc)
  show ?case
  proof (cases "h < 24")
    case True
    then have "[h..23] = h # [h + 1..23]" by (simp add: upto_rec1)
    with True "1.IH" show ?thesis by (simp add: expo_hourly_loop.simps [of q tz sod h acc])
  next
    case False
    then show ?thesis by (simp add: expo_hourly_loop.simps [of q tz sod h acc])
  qed
qed

lemma expo_getHourlyBreakdown_eq:
  "expo_getHourlyBreakdown q tz sod = map (expo_hour_entry q tz sod) [0..23]"
  by (simp add: expo_getHourlyBreakdown_def expo_hourly_loop_eq)

lemma expo_history_loop_eq:
  "expo_history_loop q tz today days i acc = acc @ map (expo_day_entry q tz today) [i..days - 1]"
proof (induction q tz today days i acc rule: expo_history_loop.induct)
  case (1 q tz today days i acc)
  show ?case
  proof (cases "i < days")
    case True
    then have "[i..days - 1] = i # [i + 1..days - 1]" by (simp add: upto_rec1)
    with True "1.IH" show ?thesis
      by (simp add: expo_history_loop.simps [of q tz today days i acc])
  next
    case False
    then show ?thesis by (simp add: expo_history_loop.simps [of q tz today days i acc])
  qed
qed

lemma expo_getHistoricalSteps_eq:
  "expo_getHistoricalSteps q tz today days = rev (map (expo_day_entry q tz today) [0..days - 1])"
  by (simp add: expo_getHistoricalSteps_def expo_history_loop_eq)

lemma mock_history_loop_eq:
  "mock_history_loop random tz clock today days i acc =
     acc @ map (mock_day_entry random tz clock today) [i..days - 1]"
proof (induction random tz clock today days i acc rule: mock_history_loop.induct)
  case (1 random tz clock today days i acc)
  show ?case
  proof (cases "i < days")
    case True
    then have "[i..days - 1] = i # [i + 1..days - 1]" by (simp add: upto_rec1)
    with True "1.IH" show ?thesis
      by (simp add: mock_history_loop.simps [of random tz clock today days i acc])
  next
    case False
    then show ?thesis by (simp add: mock_history_loop.simps [of random tz clock today days i acc])
  qed
qed

lemma mock_getHistoricalSteps_eq:
  "mock_getHistoricalSteps random tz clock today days =
     rev (map (mock_day_entry random tz clock today) [0..days - 1])"
  by (simp add: mock_getHistoricalSteps_def mock_history_loop_eq)

subsection \<open>Range queries\<close>

lemma fl_zero: "fl 0 = 0"
  by (simp add: fl_def)

lemma calculateDistance_zero: "calculateDistance 0 strideLength = 0"
  by (simp add: calculateDistance_def distanceKm_of_def parseFloat_toFixed_def fl_zero)

lemma calculateCalories_zero: "calculateCalories 0 weightKg = 0"
  by (simp add: calculateCalories_def fl_zero)

lemma calculateActiveMinutes_zero: "calculateActiveMinutes 0 stepsPerMinute = 0"
  by (simp add: calculateActiveMinutes_def fl_zero)

lemma derived_expo_getStepCount: "derived_from_steps (expo_getStepCount q startD endD)"
  by (simp add: derived_from_steps_def expo_getStepCount_def calculateDistance_zero
      calculateCalories_zero calculateActiveMinutes_zero Let_def split: query_result.splits)

lemma derived_expo_day_entry: "derived_from_steps (expo_day_entry q tz today i)"
  using derived_expo_getStepCount [of q "localDate tz (minusDays today i) 0 0 0"
      "localDate tz (minusDays today i) 23 59 59"]
  by (simp add: derived_from_steps_def expo_day_entry_def Let_def)

lemma derived_mock_day_entry: "derived_from_steps (mock_day_entry random tz clock today i)"
  by (simp add: derived_from_steps_def mock_day_entry_def Let_def)

text \<open>
  C7. Every record returned by \<open>getStepCount\<close>, \<open>getTodaySteps\<close> and \<open>getHistoricalSteps\<close>
  of either adapter carries the distance, calories and active minutes that the calculator
  gives for its \<open>steps\<close> under the default parameters; this includes the zero record of a
  failed query, whose literal zeros are the calculator's values at 0. The records are
  values: no operation of the model holds on to a record it returned, so none can change
  one afterwards.
\<close>

theorem derived_fields_follow_steps:
  "derived_from_steps (expo_getStepCount q startD endD) \<and>
   derived_from_steps (expo_getTodaySteps q tz today now) \<and>
   list_all derived_from_steps (expo_getHistoricalSteps q tz today days) \<and>
   derived_from_steps (mock_getStepCount r startD endD) \<and>
   derived_from_steps (mock_getTodaySteps tz now) \<and>
   list_all derived_from_steps (mock_getHistoricalSteps random tz clock today days)"
proof -
  have "derived_from_steps (expo_getTodaySteps q tz today now)"
    by (simp add: expo_getTodaySteps_def derived_expo_getStepCount)
  moreover have "list_all derived_from_steps (expo_getHistoricalSteps q tz today days)"
    by (simp add: expo_getHistoricalSteps_eq list_all_iff derived_expo_day_entry)
  moreover have "derived_from_steps (mock_getStepCount r startD endD)"
    by (simp add: derived_from_steps_def mock_getStepCount_def Let_def)
  moreover have "derived_from_steps (mock_getTodaySteps tz now)"
    by (simp add: derived_from_steps_def mock_getTodaySteps_def Let_def)
  moreover have "list_all derived_from_steps (mock_getHistoricalSteps random tz clock today days)"
    by (simp add: mock_getHistoricalSteps_eq list_all_iff derived_mock_day_entry)
  ultimately show ?thesis by (simp add: derived_expo_getStepCount)
qed


text \<open>
  C8. A rejected pedometer query never escapes \<open>getStepCount\<close>: the result is the record
  with steps, distance, calories and active minutes 0 and the id, dates and source of any
  other outcome \<open>q'\<close>. In \<open>getHourlyBreakdown\<close> there are 24 entries; the entry of hour
  \<open>h\<close> has 0 steps when its own sub-query is rejected, the resolved steps otherwise, and
  depends on no other sub-query: two pedometers that agree on hour \<open>h\<close> give the same
  entry \<open>h\<close>, whatever happens in the other hours.
\<close>

theorem query_failure_degrades_to_zero:
  assumes "0 \<le> h" and "h < 24"
  shows "(q startD endD = Rejected \<longrightarrow>
           expo_getStepCount q startD endD =
             \<lparr>id_str = id_str (expo_getStepCount q' startD endD),
              steps = 0, distance = 0, calories = 0, activeMinutes = 0,
              startDate = startDate (expo_getStepCount q' startD endD),
              endDate = endDate (expo_getStepCount q' startD endD),
              source = source (expo_getStepCount q' startD endD)\<rparr>) \<and>
         length (expo_getHourlyBreakdown q tz sod) = 24 \<and>
         hour (expo_getHourlyBreakdown q tz sod ! nat h) = h \<and>
         (q (setHours tz sod h 0 0 0) (setHours tz sod h 59 59 999) = Rejected \<longrightarrow>
            hourSteps (expo_getHourlyBreakdown q tz sod ! nat h) = 0) \<and>
         (q (setHours tz sod h 0 0 0) (setHours tz sod h 59 59 999) = Resolved r \<longrightarrow>
            hourSteps (expo_getHourlyBreakdown q tz sod ! nat h) = steps_or_zero r) \<and>
         (q' (setHours tz sod h 0 0 0) (setHours tz sod h 59 59 999) =
            q (setHours tz sod h 0 0 0) (setHours tz sod h 59 59 999) \<longrightarrow>
          expo_getHourlyBreakdown q' tz sod ! nat h = expo_getHourlyBreakdown q tz sod ! nat h)"
proof -
  have len: "length (expo_getHourlyBreakdown q tz sod) = 24" for q :: pedometer_query
    by (simp add: expo_getHourlyBreakdown_eq)
  have nth: "expo_getHourlyBreakdown q tz sod ! nat h = expo_hour_entry q tz sod h"
    for q :: pedometer_query
    using assms by (simp add: expo_getHourlyBreakdown_eq nth_upto)
  have zero: "q startD endD = Rejected \<longrightarrow>
           expo_getStepCount q startD endD =
             \<lparr>id_str = id_str (expo_getStepCount q' startD endD),
              steps = 0, distance = 0, calories = 0, activeMinutes = 0,
              startDate = startDate (expo_getStepCount q' startD endD),
              endDate = endDate (expo_getStepCount q' startD endD),
              source = source (expo_getStepCount q' startD endD)\<rparr>"
    by (simp add: expo_getStepCount_def Let_def split: query_result.splits)
  show ?thesis
    unfolding nth
    using zero len [of q]
    by (simp add: expo_hour_entry_def Let_def split: query_result.splits)
qed

theorem query_failure_degrades_to_zero_witness:
  "expo_getStepCount (\<lambda>s e. if s = 10800000 then Rejected else Resolved (Some 7)) 10800000 14399999 =
     \<lparr>id_str = ''10800000-14399999'', steps = 0, distance = 0, calories = 0, activeMinutes = 0,
      startDate = 10800000, endDate = 14399999, source = pedometer\<rparr> \<and>
   map hourSteps (expo_getHourlyBreakdown (\<lambda>s e. if s = 10800000 then Rejected else Resolved (Some 7)) 0 0) =
     [7, 7, 7, 0, 7, 7, 7, 7, 7, 7, 7, 7, 7, 7, 7, 7, 7, 7, 7, 7, 7, 7, 7, 7] \<and>
   hourSteps (expo_getHourlyBreakdown (\<lambda>s e. if s = 10800000 then Rejected else Resolved (Some 7)) 0 0 ! 3) = 0 \<and>
   expo_getHourlyBreakdown (\<lambda>s e. Resolved (Some 7)) 0 0 ! 4 =
     expo_getHourlyBreakdown (\<lambda>s e. if s = 10800000 then Rejected else Resolved (Some 7)) 0 0 ! 4"
proof -
  let ?q = "\<lambda>s e :: date. if s = 10800000 then Rejected else Resolved (Some 7)"
  let ?q' = "\<lambda>s e :: date. Resolved (Some (7::int))"
  have h3: "(0::int) \<le> 3" "(3::int) < 24" and h4: "(0::int) \<le> 4" "(4::int) < 24" by simp_all
  have r3: "?q (setHours 0 0 3 0 0 0) (setHours 0 0 3 59 59 999) = Rejected"
    by (simp add: setHours_def startOfLocalDay_def msPerDay_def)
  have r4: "?q' (setHours 0 0 4 0 0 0) (setHours 0 0 4 59 59 999) =
            ?q (setHours 0 0 4 0 0 0) (setHours 0 0 4 59 59 999)"
    by (simp add: setHours_def startOfLocalDay_def msPerDay_def)
  have rej: "?q 10800000 14399999 = Rejected" by simp
  have ids: "id_str (expo_getStepCount ?q' 10800000 14399999) = ''10800000-14399999''"
    "startDate (expo_getStepCount ?q' 10800000 14399999) = 10800000"
    "endDate (expo_getStepCount ?q' 10800000 14399999) = 14399999"
    "source (expo_getStepCount ?q' 10800000 14399999) = pedometer"
    by (simp_all add: expo_getStepCount_def Let_def show_int_def show_nat.simps)
  have all: "map hourSteps (expo_getHourlyBreakdown ?q 0 0) =
     [7, 7, 7, 0, 7, 7, 7, 7, 7, 7, 7, 7, 7, 7, 7, 7, 7, 7, 7, 7, 7, 7, 7, 7]"
    by code_simp
  from query_failure_degrades_to_zero
      [where h = 3 and q = ?q and startD = 10800000 and endD = 14399999 and q' = ?q'
        and tz = 0 and sod = 0 and r = None, OF h3]
    query_failure_degrades_to_zero
      [where h = 4 and q = ?q and startD = 10800000 and endD = 14399999 and q' = ?q'
        and tz = 0 and sod = 0 and r = None, OF h4]
    r3 r4 rej ids all
  show ?thesis by simp
qed

subsection \<open>Historical queries\<close>

lemma length_distribution: "length distribution = 25"
  by (simp add: distribution_def)

lemma hours_generateHourlyData: "map hour (generateHourlyData tz clock totalSteps) = [0..24]"
proof -
  have "map hour (generateHourlyData tz clock totalSteps) =
        map snd (zip distribution [0 .. int (length distribution) - 1])"
    by (simp add: generateHourlyData_def split_beta comp_def)
  also have "\<dots> = [0..24]"
    by (simp add: length_distribution)
  finally show ?thesis .
qed

lemma hours_expo_getHourlyBreakdown: "map hour (expo_getHourlyBreakdown q tz sod) = [0..23]"
proof -
  have "hour (expo_hour_entry q tz sod h) = h" for h
    by (simp add: expo_hour_entry_def Let_def split: query_result.splits)
  then show ?thesis
    by (simp add: expo_getHourlyBreakdown_eq comp_def)
qed

lemma startOfLocalDay_minusDays:
  "startOfLocalDay tz (minusDays d i) = startOfLocalDay tz d - i * msPerDay"
proof -
  have "d - i * msPerDay + tz = (d + tz) + (- i) * msPerDay"
    by (simp add: algebra_simps)
  then have "(d - i * msPerDay + tz) mod msPerDay = (d + tz) mod msPerDay"
    by (simp only: mod_mult_self1)
  then show ?thesis by (simp add: startOfLocalDay_def minusDays_def)
qed


lemma startDate_expo_day_entry:
  "startDate (expo_day_entry q tz today i) = startOfLocalDay tz today - i * msPerDay"
  by (simp add: expo_day_entry_def Let_def expo_getStepCount_def localDate_def
      startOfLocalDay_minusDays split: query_result.splits)

lemma startDate_mock_day_entry:
  "startDate (mock_day_entry random tz clock today i) = startOfLocalDay tz today - i * msPerDay"
  by (simp add: mock_day_entry_def Let_def localDate_def startOfLocalDay_minusDays)

lemma ascending_rev_map_upto:
  fixes f :: "int \<Rightarrow> int"
  assumes "\<And>i j. i < j \<Longrightarrow> f j < f i"
  shows "sorted_wrt (<) (rev (map f [0..n]))"
proof -
  have "sorted_wrt (<) [0..n]" by (simp add: strict_sorted_iff)
  then have "sorted_wrt (\<lambda>i j. f j < f i) [0..n]"
    by (rule sorted_wrt_mono_rel [rotated]) (simp add: assms)
  then show ?thesis by (simp add: sorted_wrt_rev sorted_wrt_map)
qed

text \<open>
  What holds of \<open>getHistoricalSteps\<close> in both adapters: \<open>days\<close> entries (none for
  \<open>days \<le> 0\<close>), strictly ascending in \<open>startDate\<close>; and in \<open>ExpoPedometerAdapter\<close> the
  hours of every entry are 0 to 23.
\<close>

lemma history_shape:
  "length (expo_getHistoricalSteps q tz today days) = nat days \<and>
   sorted_wrt (<) (map startDate (expo_getHistoricalSteps q tz today days)) \<and>
   list_all (\<lambda>d. map hour (hourlyData d) = [0..23]) (expo_getHistoricalSteps q tz today days) \<and>
   length (mock_getHistoricalSteps random tz clock today days) = nat days \<and>
   sorted_wrt (<) (map startDate (mock_getHistoricalSteps random tz clock today days))"
proof -
  have m: "0 < msPerDay" by (simp add: msPerDay_def)
  have "sorted_wrt (<) (rev (map (\<lambda>i. startOfLocalDay tz today - i * msPerDay) [0..days - 1]))"
    by (rule ascending_rev_map_upto) (simp add: m)
  then have "sorted_wrt (<) (map startDate (expo_getHistoricalSteps q tz today days))"
    and "sorted_wrt (<) (map startDate (mock_getHistoricalSteps random tz clock today days))"
    by (simp_all add: expo_getHistoricalSteps_eq mock_getHistoricalSteps_eq rev_map [symmetric]
        comp_def startDate_expo_day_entry startDate_mock_day_entry)
  moreover have "list_all (\<lambda>d. map hour (hourlyData d) = [0..23])
      (expo_getHistoricalSteps q tz today days)"
    by (simp add: expo_getHistoricalSteps_eq list_all_iff expo_day_entry_def Let_def
        hours_expo_getHourlyBreakdown)
  ultimately show ?thesis
    by (simp add: expo_getHistoricalSteps_eq mock_getHistoricalSteps_eq)
qed

text \<open>
  C1. The claim asks for exactly 24 hourly entries, with hours 0 to 23, in every entry of
  \<open>getHistoricalSteps\<close> of both adapters. \<open>MockSensorAdapter\<close> maps over its \<open>distribution\<close>
  table, which has 25 elements: already \<open>getHistoricalSteps(1)\<close> returns one entry with 25
  hourly entries, and the hours of every entry are 0 to 24.
\<close>

theorem mock_history_has_25_hours:
  "length (mock_getHistoricalSteps random tz clock today 1) = 1 \<and>
   length (hourlyData (hd (mock_getHistoricalSteps random tz clock today 1))) = 25 \<and>
   list_all (\<lambda>d. map hour (hourlyData d) = [0..24])
     (mock_getHistoricalSteps random tz clock today days)"
proof -
  have one: "mock_getHistoricalSteps random tz clock today 1 = [mock_day_entry random tz clock today 0]"
    by (simp add: mock_getHistoricalSteps_eq)
  have h: "map hour (hourlyData (mock_day_entry random tz clock today i)) = [0..24]" for i
    by (simp add: mock_day_entry_def Let_def hours_generateHourlyData)
  have "length (map hour (hourlyData (mock_day_entry random tz clock today 0))) = 25"
    unfolding h by simp
  then have "length (hourlyData (mock_day_entry random tz clock today 0)) = 25"
    by simp
  with one h show ?thesis
    by (simp add: mock_getHistoricalSteps_eq list_all_iff)
qed

subsection \<open>Rounding to the nearest double\<close>

lemma bitlen_powi_bounds:
  fixes p :: int
  assumes "0 < p"
  shows "(2::rat) powi (bitlen p - 1) \<le> of_int p" and "of_int p < (2::rat) powi (bitlen p)"
proof -
  from assms have b1: "1 \<le> bitlen p" by (auto simp: bitlen_alt_def)
  from bitlen_bounds [OF assms]
  have lo: "(2::int) ^ nat (bitlen p - 1) \<le> p" and hi: "p < 2 ^ nat (bitlen p)" by simp_all
  from lo have "(of_int ((2::int) ^ nat (bitlen p - 1)) :: rat) \<le> of_int p"
    by (simp only: of_int_le_iff)
  with b1 show "(2::rat) powi (bitlen p - 1) \<le> of_int p"
    by (simp add: power_int_nonneg_exp)
  from hi have "(of_int p :: rat) < of_int ((2::int) ^ nat (bitlen p))"
    by (simp only: of_int_less_iff)
  with b1 show "of_int p < (2::rat) powi (bitlen p)"
    by (simp add: power_int_nonneg_exp)
qed

lemma powi2_add: "(2::rat) powi (a + b) = 2 powi a * 2 powi b"
  by (simp add: power_int_add)

lemma powi2_diff: "(2::rat) powi (a - b) = 2 powi a / 2 powi b"
  by (simp add: power_int_diff)

lemma powi2_pos: "0 < (2::rat) powi a"
  by simp

lemma powi2_mono: "a \<le> b \<Longrightarrow> (2::rat) powi a \<le> 2 powi b"
  by (rule power_int_increasing) simp_all

lemma powi2_strict_mono: "a < b \<Longrightarrow> (2::rat) powi a < 2 powi b"
  by (rule power_int_strict_increasing) simp_all

lemma powi2_Suc: "(2::rat) powi (a + 1) = 2 * 2 powi a"
  by (simp add: power_int_add)

lemma exponent_bounds:
  assumes "0 < x"
  shows "2 powi (exponent x) \<le> x" and "x < 2 powi (exponent x + 1)"
proof -
  obtain p q where pq: "quotient_of x = (p, q)" by (cases "quotient_of x")
  then have q: "0 < q" by (rule quotient_of_denom_pos)
  from pq have x: "x = of_int p / of_int q" by (rule quotient_of_div)
  with assms q have p: "0 < p" by (simp add: zero_less_divide_iff)
  define d where "d = bitlen p - bitlen q"
  have xq: "x * of_int q = of_int p" using x q by simp
  have qpos: "(0::rat) < of_int q" using q by simp
  have "x * 2 powi (bitlen q - 1) \<le> x * of_int q"
    using bitlen_powi_bounds(1) [OF q] assms by simp
  also have "\<dots> < 2 powi (bitlen p)"
    using bitlen_powi_bounds(2) [OF p] xq by simp
  finally have "x < 2 powi (bitlen p) / 2 powi (bitlen q - 1)"
    by (simp add: pos_less_divide_eq)
  then have up: "x < 2 powi (d + 1)"
    by (simp add: d_def powi2_diff [symmetric] algebra_simps)
  have "2 powi (bitlen p - 1) \<le> x * of_int q"
    using bitlen_powi_bounds(1) [OF p] xq by simp
  also have "\<dots> < x * 2 powi (bitlen q)"
    using bitlen_powi_bounds(2) [OF q] assms by simp
  finally have "2 powi (bitlen p - 1) / 2 powi (bitlen q) < x"
    by (simp add: pos_divide_less_eq)
  then have lo: "2 powi (d - 1) < x"
    by (simp add: d_def powi2_diff [symmetric] algebra_simps)
  have e: "exponent x = (if x < 2 powi d then d - 1 else d)"
    by (simp add: exponent_def pq d_def Let_def)
  show "2 powi (exponent x) \<le> x"
    using lo by (simp add: e)
  show "x < 2 powi (exponent x + 1)"
    using up by (simp add: e)
qed

lemma exponent_unique:
  assumes "0 < x" and "2 powi e \<le> x" and "x < 2 powi (e + 1)"
  shows "exponent x = e"
proof (rule ccontr)
  assume ne: "exponent x \<noteq> e"
  note b = exponent_bounds [OF assms(1)]
  show False
  proof (cases "exponent x < e")
    case True
    then have "exponent x + 1 \<le> e" by simp
    then have "(2::rat) powi (exponent x + 1) \<le> 2 powi e" by (rule powi2_mono)
    with b(2) assms(2) show False by simp
  next
    case False
    with ne have "e + 1 \<le> exponent x" by simp
    then have "(2::rat) powi (e + 1) \<le> 2 powi (exponent x)" by (rule powi2_mono)
    with b(1) assms(3) show False by simp
  qed
qed

lemma round_half_even_near: "\<bar>of_int (round_half_even r) - r\<bar> \<le> 1 / 2"
proof -
  have "of_int \<lfloor>r\<rfloor> \<le> r" "r < of_int \<lfloor>r\<rfloor> + 1" by linarith+
  then show ?thesis
    by (auto simp: round_half_even_def Let_def)
qed

lemma round_half_even_of_int [simp]: "round_half_even (of_int n) = n"
  by (simp add: round_half_even_def)

lemma round_half_even_mono: "r \<le> s \<Longrightarrow> round_half_even r \<le> round_half_even s"
proof -
  assume rs: "r \<le> s"
  have fr: "of_int \<lfloor>r\<rfloor> \<le> r" "r < of_int \<lfloor>r\<rfloor> + 1" by linarith+
  have fs: "of_int \<lfloor>s\<rfloor> \<le> s" "s < of_int \<lfloor>s\<rfloor> + 1" by linarith+
  have fl: "\<lfloor>r\<rfloor> \<le> \<lfloor>s\<rfloor>" using rs by (rule floor_mono)
  show ?thesis
  proof (cases "\<lfloor>r\<rfloor> = \<lfloor>s\<rfloor>")
    case True
    with rs show ?thesis by (auto simp: round_half_even_def Let_def)
  next
    case False
    with fl have "\<lfloor>r\<rfloor> + 1 \<le> \<lfloor>s\<rfloor>" by simp
    moreover have "round_half_even r \<le> \<lfloor>r\<rfloor> + 1" by (simp add: round_half_even_def Let_def)
    moreover have "\<lfloor>s\<rfloor> \<le> round_half_even s" by (simp add: round_half_even_def Let_def)
    ultimately show ?thesis by linarith
  qed
qed

lemma round_half_even_ge: "of_int n \<le> r \<Longrightarrow> n \<le> round_half_even r"
  using round_half_even_mono [of "of_int n" r] by simp

lemma round_half_even_le: "r \<le> of_int n \<Longrightarrow> round_half_even r \<le> n"
  using round_half_even_mono [of r "of_int n"] by simp

lemma round_half_even_neg_le: "r < of_int m - 1 / 2 \<Longrightarrow> round_half_even r \<le> m - 1"
proof -
  assume a: "r < of_int m - 1 / 2"
  have f: "of_int \<lfloor>r\<rfloor> \<le> r" "r < of_int \<lfloor>r\<rfloor> + 1" by linarith+
  from a f(1) have "(of_int \<lfloor>r\<rfloor> :: rat) < of_int m" by linarith
  then have fm: "\<lfloor>r\<rfloor> \<le> m - 1" by simp
  show ?thesis
  proof (cases "\<lfloor>r\<rfloor> = m - 1")
    case True
    with a have "r - of_int \<lfloor>r\<rfloor> < 1 / 2" by simp
    with True show ?thesis by (simp add: round_half_even_def Let_def)
  next
    case False
    with fm have "\<lfloor>r\<rfloor> + 1 \<le> m - 1" by simp
    moreover have "round_half_even r \<le> \<lfloor>r\<rfloor> + 1" by (simp add: round_half_even_def Let_def)
    ultimately show ?thesis by linarith
  qed
qed

lemma round_half_even_pos_ge: "of_int m + 1 / 2 < r \<Longrightarrow> m + 1 \<le> round_half_even r"
proof -
  assume a: "of_int m + 1 / 2 < r"
  have f: "of_int \<lfloor>r\<rfloor> \<le> r" "r < of_int \<lfloor>r\<rfloor> + 1" by linarith+
  from a have "of_int m \<le> r" by linarith
  then have fm: "m \<le> \<lfloor>r\<rfloor>" by (simp add: le_floor_iff)
  show ?thesis
  proof (cases "\<lfloor>r\<rfloor> = m")
    case True
    with a have "1 / 2 < r - of_int \<lfloor>r\<rfloor>" by simp
    with True show ?thesis by (simp add: round_half_even_def Let_def)
  next
    case False
    with fm have "m + 1 \<le> \<lfloor>r\<rfloor>" by simp
    moreover have "\<lfloor>r\<rfloor> \<le> round_half_even r" by (simp add: round_half_even_def Let_def)
    ultimately show ?thesis by linarith
  qed
qed

lemma ulp_pos: "0 < ulp x"
  by (simp add: ulp_def)

lemma ulp_minus [simp]: "ulp (- x) = ulp x"
  by (simp add: ulp_def)

lemma fl_minus: "fl (- x) = - fl x"
  by (simp add: fl_def)

lemma fl_pos: "0 < x \<Longrightarrow> fl x = of_int (round_half_even (x / ulp x)) * ulp x"
  by (simp add: fl_def)

lemma fl_nonneg: "0 \<le> x \<Longrightarrow> 0 \<le> fl x"
proof (cases "x = 0")
  case True
  then show ?thesis by (simp add: fl_def)
next
  case False
  assume "0 \<le> x"
  with False have x: "0 < x" by simp
  have "0 \<le> x / ulp x" using x ulp_pos [of x] by simp
  then have "0 \<le> round_half_even (x / ulp x)"
    using round_half_even_ge [of 0 "x / ulp x"] by simp
  then show ?thesis using ulp_pos [of x] by (simp add: fl_pos [OF x])
qed

lemma ulp_normal:
  assumes "0 < x" and "2 powi e \<le> x" and "x < 2 powi (e + 1)" and "- 1022 \<le> e"
  shows "ulp x = 2 powi (e - 52)"
  using exponent_unique [OF assms(1-3)] assms(1,4) by (simp add: ulp_def)

lemma fl_eval:
  assumes "0 < x" and "2 powi e \<le> x" and "x < 2 powi (e + 1)" and "- 1022 \<le> e"
  shows "fl x = of_int (round_half_even (x / 2 powi (e - 52))) * 2 powi (e - 52)"
  using ulp_normal [OF assms] by (simp add: fl_pos [OF assms(1)])

lemma fl_abs_error: "\<bar>fl x - x\<bar> \<le> ulp x / 2"
proof -
  have pos: "\<bar>fl y - y\<bar> \<le> ulp y / 2" if y: "0 < y" for y
  proof -
    let ?u = "ulp y"
    have u: "0 < ?u" by (rule ulp_pos)
    have "\<bar>of_int (round_half_even (y / ?u)) - y / ?u\<bar> \<le> 1 / 2"
      by (rule round_half_even_near)
    then have "\<bar>of_int (round_half_even (y / ?u)) - y / ?u\<bar> * ?u \<le> 1 / 2 * ?u"
      using u by (simp only: mult_le_cancel_right_pos)
    moreover have "(of_int (round_half_even (y / ?u)) - y / ?u) * ?u =
        of_int (round_half_even (y / ?u)) * ?u - y"
      using u by (simp add: left_diff_distrib)
    then have "\<bar>of_int (round_half_even (y / ?u)) - y / ?u\<bar> * ?u =
        \<bar>of_int (round_half_even (y / ?u)) * ?u - y\<bar>"
      using u by (metis abs_mult abs_of_pos)
    ultimately show ?thesis by (simp add: fl_pos [OF y])
  qed
  consider "x = 0" | "0 < x" | "x < 0" by linarith
  then show ?thesis
  proof cases
    case 1
    then show ?thesis using ulp_pos [of 0] by (simp add: fl_def)
  next
    case 2
    then show ?thesis by (rule pos)
  next
    case 3
    then have "0 < - x" by simp
    from pos [OF this] show ?thesis by (simp add: fl_minus abs_minus_commute)
  qed
qed

lemma ulp_le:
  assumes "2 powi (- 1022) \<le> x"
  shows "ulp x \<le> x / 2 ^ 52"
proof -
  have x: "0 < x" using assms powi2_pos [of "- 1022"] by linarith
  have "exponent x \<ge> - 1022"
  proof (rule ccontr)
    assume "\<not> - 1022 \<le> exponent x"
    then have "exponent x + 1 \<le> - 1022" by simp
    then have "(2::rat) powi (exponent x + 1) \<le> 2 powi (- 1022)" by (rule powi2_mono)
    with exponent_bounds(2) [OF x] assms show False by linarith
  qed
  then have "ulp x = 2 powi (exponent x) / 2 ^ 52"
    using x by (simp add: ulp_def powi2_diff)
  with exponent_bounds(1) [OF x] show ?thesis by (simp add: divide_right_mono)
qed

lemma fl_rel_error:
  assumes "2 powi (- 1022) \<le> x"
  shows "x * (1 - 1 / 2 ^ 53) \<le> fl x" and "fl x \<le> x * (1 + 1 / 2 ^ 53)"
proof -
  have "\<bar>fl x - x\<bar> \<le> ulp x / 2" by (rule fl_abs_error)
  also have "\<dots> \<le> (x / 2 ^ 52) / 2" using ulp_le [OF assms] by simp
  also have "\<dots> = x / 2 ^ 53" by simp
  finally have e: "\<bar>fl x - x\<bar> \<le> x / 2 ^ 53" .
  define d where "d = x / 2 ^ 53"
  from e have "fl x - x \<le> d" and "x - fl x \<le> d"
    unfolding d_def by (simp_all only: abs_le_iff minus_diff_eq)
  moreover have "x * (1 - 1 / 2 ^ 53) = x - d" and "x * (1 + 1 / 2 ^ 53) = x + d"
    unfolding d_def by (simp_all only: right_diff_distrib distrib_left mult_1_right times_divide_eq_right)
  ultimately show "x * (1 - 1 / 2 ^ 53) \<le> fl x" and "fl x \<le> x * (1 + 1 / 2 ^ 53)"
    by simp_all
qed

text \<open>
  Known roundings: the double written \<^verbatim>\<open>0.1\<close>, and the ties at \<open>2^53 + 1\<close> and
  \<open>2^53 + 3\<close>, which go to the even neighbours.
\<close>

lemma fl_examples:
  "fl (1 / 10) = 3602879701896397 / 36028797018963968"
  "fl 9007199254740993 = 9007199254740992"
  "fl 9007199254740995 = 9007199254740996"
  by code_simp+

lemma fl_lower:
  assumes "1 / 2 ^ 20 \<le> x"
  shows "x * (1 - 1 / 2 ^ 53) \<le> fl x" and "fl x \<le> x * (1 + 1 / 2 ^ 53)"
proof -
  have "(2::rat) powi (- 1022) \<le> 2 powi (- 20)" by (rule powi2_mono) simp
  also have "(2::rat) powi (- 20) = 1 / 2 ^ 20" by (simp add: power_int_minus_divide)
  finally have "2 powi (- 1022) \<le> x" using assms by linarith
  then show "x * (1 - 1 / 2 ^ 53) \<le> fl x" and "fl x \<le> x * (1 + 1 / 2 ^ 53)"
    by (rule fl_rel_error)+
qed

lemma stride_value: "DEFAULT_STRIDE_LENGTH = 3422735716801577 / 4503599627370496"
  by code_simp

subsection \<open>StepCalculator\<close>

lemma distanceKm_of_minus: "distanceKm_of (- s) strideLength = - distanceKm_of s strideLength"
  by (simp add: distanceKm_of_def fl_minus Let_def)

lemma parseFloat_toFixed_minus: "parseFloat_toFixed f (- x) = - parseFloat_toFixed f x"
  by (simp add: parseFloat_toFixed_def toFixed_digits_def fl_minus [symmetric] sgn_minus)

lemma toFixed_digits_nearest:
  "\<bar>of_int (toFixed_digits f x) - \<bar>x\<bar> * 10 ^ f\<bar> \<le> 1 / 2"
proof -
  define y where "y = \<bar>x\<bar> * 10 ^ f + 1 / 2"
  have "of_int \<lfloor>y\<rfloor> \<le> y" "y < of_int \<lfloor>y\<rfloor> + 1" by linarith+
  then have "\<bar>of_int \<lfloor>y\<rfloor> - (y - 1 / 2)\<bar> \<le> 1 / 2" by linarith
  then show ?thesis unfolding toFixed_digits_def y_def by simp
qed

lemma nearest_int_minimal:
  fixes y :: rat and n m :: int
  assumes "\<bar>of_int n - y\<bar> \<le> 1 / 2"
  shows "\<bar>of_int n - y\<bar> \<le> \<bar>of_int m - y\<bar>"
proof (cases "m = n")
  case True
  then show ?thesis by simp
next
  case False
  then have "1 \<le> \<bar>m - n\<bar>" by simp
  then have "(1::rat) \<le> \<bar>of_int m - of_int n\<bar>"
    by (metis of_int_1 of_int_abs of_int_diff of_int_le_iff)
  with assms show ?thesis by linarith
qed

lemma toFixed_digits_tie:
  "of_int (toFixed_digits f x) - \<bar>x\<bar> * 10 ^ f \<le> 1 / 2 \<and>
   - 1 / 2 < of_int (toFixed_digits f x) - \<bar>x\<bar> * 10 ^ f"
proof -
  define y where "y = \<bar>x\<bar> * 10 ^ f + 1 / 2"
  have "of_int \<lfloor>y\<rfloor> \<le> y" "y < of_int \<lfloor>y\<rfloor> + 1" by linarith+
  then have "of_int \<lfloor>y\<rfloor> - (y - 1 / 2) \<le> 1 / 2 \<and> - 1 / 2 < of_int \<lfloor>y\<rfloor> - (y - 1 / 2)"
    by linarith
  then show ?thesis unfolding toFixed_digits_def y_def by simp
qed

text \<open>
  C6, as amended. \<open>calculateDistance\<close> returns 0 for 0 steps; it has no guard for negative
  steps and returns the negated distance of the positive count. Whenever the computed
  kilometre value \<open>distanceKm_of s strideLength\<close> (the double product divided by 1000, each
  rounded to a double) is below \<open>10^21\<close>, the result is the double nearest to \<open>n / 100\<close>,
  where \<open>n / 100\<close> is a multiple of 0.01 nearest to that computed value, the one away from
  zero on a tie.
\<close>

theorem calculateDistance_rounds_computed_km:
  "calculateDistance 0 strideLength = 0 \<and>
   calculateDistance (- s) strideLength = - calculateDistance s strideLength \<and>
   (\<bar>distanceKm_of s strideLength\<bar> < 10 ^ 21 \<longrightarrow>
      (\<exists>n. calculateDistance s strideLength = fl (of_int n / 100) \<and>
           (\<forall>m. \<bar>of_int n / 100 - distanceKm_of s strideLength\<bar>
                  \<le> \<bar>of_int m / 100 - distanceKm_of s strideLength\<bar>) \<and>
           (\<bar>of_int n / 100 - distanceKm_of s strideLength\<bar> = 1 / 200 \<longrightarrow>
              \<bar>distanceKm_of s strideLength\<bar> < \<bar>of_int n / 100\<bar>)))"
proof (intro conjI impI)
  show "calculateDistance 0 strideLength = 0"
    by (simp add: calculateDistance_def distanceKm_of_def parseFloat_toFixed_def fl_zero)
  show "calculateDistance (- s) strideLength = - calculateDistance s strideLength"
    by (simp add: calculateDistance_def distanceKm_of_minus parseFloat_toFixed_minus)
next
  let ?x = "distanceKm_of s strideLength"
  assume small: "\<bar>?x\<bar> < 10 ^ 21"
  define d where "d = toFixed_digits 2 ?x"
  define n where "n = (if ?x < 0 then - d else d)"
  have near: "\<bar>of_int d - \<bar>?x\<bar> * 100\<bar> \<le> 1 / 2"
    using toFixed_digits_nearest [of 2 ?x] by (simp add: d_def)
  have tie: "of_int d - \<bar>?x\<bar> * 100 \<le> 1 / 2" "- 1 / 2 < of_int d - \<bar>?x\<bar> * 100"
    using toFixed_digits_tie [of 2 ?x] by (simp_all add: d_def)
  have "\<lfloor>(1::rat) / 2\<rfloor> = 0" by (rule floor_unique) simp_all
  then have d0: "?x = 0 \<Longrightarrow> d = 0"
    by (simp add: d_def toFixed_digits_def)
  have sg: "sgn ?x * (of_int d / 100) = of_int n / 100"
    using d0 by (cases "?x = 0") (auto simp: n_def sgn_if)
  have res: "calculateDistance s strideLength = fl (of_int n / 100)"
    using small sg by (simp add: calculateDistance_def parseFloat_toFixed_def d_def)
  have dist: "\<bar>of_int k / 100 - ?x\<bar> = \<bar>of_int (if ?x < 0 then - k else k) - \<bar>?x\<bar> * 100\<bar> / 100"
    for k :: int
    by (auto simp: abs_if field_simps)
  have nd: "(if ?x < 0 then - n else n) = d"
    by (simp add: n_def)
  have mini: "\<bar>of_int n / 100 - ?x\<bar> \<le> \<bar>of_int m / 100 - ?x\<bar>" for m :: int
    unfolding dist [of n] dist [of m] nd
    using nearest_int_minimal [OF near, of "if ?x < 0 then - m else m"]
    by (simp add: divide_right_mono)
  have away: "\<bar>of_int n / 100 - ?x\<bar> = 1 / 200 \<longrightarrow> \<bar>?x\<bar> < \<bar>of_int n / 100\<bar>"
  proof
    assume "\<bar>of_int n / 100 - ?x\<bar> = 1 / 200"
    then have "\<bar>of_int d - \<bar>?x\<bar> * 100\<bar> = 1 / 2"
      unfolding dist [of n] nd by simp
    with tie have "of_int d - \<bar>?x\<bar> * 100 = 1 / 2" by (simp add: abs_if split: if_splits)
    then have gt: "\<bar>?x\<bar> < of_int d / 100" by simp
    then have "0 \<le> d" using abs_ge_zero [of ?x] by (simp add: field_simps)
    have "\<bar>of_int n / 100 :: rat\<bar> = of_int d / 100"
      using \<open>0 \<le> d\<close> by (simp add: n_def abs_if)
    with gt show "\<bar>?x\<bar> < \<bar>of_int n / 100\<bar>" by simp
  qed
  from res mini away
  show "\<exists>n. calculateDistance s strideLength = fl (of_int n / 100) \<and>
           (\<forall>m. \<bar>of_int n / 100 - ?x\<bar> \<le> \<bar>of_int m / 100 - ?x\<bar>) \<and>
           (\<bar>of_int n / 100 - ?x\<bar> = 1 / 200 \<longrightarrow> \<bar>?x\<bar> < \<bar>of_int n / 100\<bar>)"
    by blast
qed


lemma distanceKm_of_625: "distanceKm_of 625 DEFAULT_STRIDE_LENGTH = 4278419646001971 / 9007199254740992"
  by code_simp

theorem calculateDistance_rounds_computed_km_witness:
  "\<bar>distanceKm_of 625 DEFAULT_STRIDE_LENGTH\<bar> < 10 ^ 21 \<and>
   calculateDistance (- 625) DEFAULT_STRIDE_LENGTH = - calculateDistance 625 DEFAULT_STRIDE_LENGTH \<and>
   (\<exists>n. calculateDistance 625 DEFAULT_STRIDE_LENGTH = fl (of_int n / 100) \<and>
        \<bar>of_int n / 100 - distanceKm_of 625 DEFAULT_STRIDE_LENGTH\<bar>
          \<le> \<bar>of_int 47 / 100 - distanceKm_of 625 DEFAULT_STRIDE_LENGTH\<bar>)"
proof -
  have small: "\<bar>distanceKm_of 625 DEFAULT_STRIDE_LENGTH\<bar> < 10 ^ 21"
    unfolding distanceKm_of_625 by simp
  from calculateDistance_rounds_computed_km [of DEFAULT_STRIDE_LENGTH 625] small
  show ?thesis by blast
qed

text \<open>
  The rounding is that of the computed double, not of the exact product: 625 steps are
  exactly 0.475 km, the computed double lies just below, and the result is 0.47.
\<close>

lemma calculateDistance_625: "calculateDistance 625 DEFAULT_STRIDE_LENGTH = fl (47 / 100)"
  by code_simp

lemma calculateDistance_m1000: "calculateDistance (- 1000) DEFAULT_STRIDE_LENGTH = fl (- 76 / 100)"
  by code_simp

text \<open>
  C6 as stated fails: \<open>calculateDistance(-1000)\<close> is \<open>-0.76\<close>, not 0.
\<close>

theorem negative_steps_give_negative_distance:
  "calculateDistance (- 1000) DEFAULT_STRIDE_LENGTH \<noteq> 0"
  by code_simp

subsection \<open>Today's steps\<close>

lemma show_nat_digit: "show_nat n \<noteq> [] \<and> hd (show_nat n) \<in> set ''0123456789''"
proof (induction n rule: show_nat.induct)
  case (1 n)
  show ?case
  proof (cases "n < 10")
    case True
    then have "''0123456789'' ! n \<in> set ''0123456789''"
      by (intro nth_mem) simp
    with True show ?thesis by (subst (1 2) show_nat.simps) simp
  next
    case False
    with "1.IH" show ?thesis by (subst (1 2) show_nat.simps) simp
  qed
qed

lemma show_int_head: "show_int i \<noteq> [] \<and> hd (show_int i) \<noteq> CHR ''t''"
  using show_nat_digit [of "nat i"] by (auto simp: show_int_def)

lemma mock_ids_differ:
  "id_str (mock_getTodaySteps tz now) \<noteq> id_str (mock_getStepCount r startD endD)"
proof
  assume "id_str (mock_getTodaySteps tz now) = id_str (mock_getStepCount r startD endD)"
  then have "''today-'' @ show_int now = show_int startD @ ''-'' @ show_int endD"
    by (simp add: mock_getTodaySteps_def mock_getStepCount_def Let_def)
  then have "hd (''today-'' @ show_int now) = hd (show_int startD @ ''-'' @ show_int endD)"
    by simp
  with show_int_head [of startD] show False by simp
qed

lemma getHours_range: "0 \<le> getHours tz d \<and> getHours tz d \<le> 23"
proof -
  define m where "m = (d + tz) mod msPerDay"
  have "0 \<le> m" "m \<le> 86399999"
    by (simp_all add: m_def msPerDay_def)
  then have "0 \<le> m div 3600000" and "m div 3600000 \<le> 86399999 div 3600000"
    by (simp_all add: pos_imp_zdiv_nonneg_iff zdiv_mono1)
  then show ?thesis by (simp add: getHours_def m_def)
qed

lemma daily_steps_loop_eq:
  "0 \<le> h \<Longrightarrow> daily_steps_loop currentHour h acc =
     acc + sum_list (map (\<lambda>k. stepsPerHour ! nat k) [h .. min currentHour 23])"
proof (induction currentHour h acc rule: daily_steps_loop.induct)
  case (1 currentHour h acc)
  show ?case
  proof (cases "h \<le> currentHour \<and> h < 24")
    case True
    then have u: "[h .. min currentHour 23] = h # [h + 1 .. min currentHour 23]"
      by (simp add: upto_rec1)
    from True "1.prems" have e: "entry_or_zero stepsPerHour h = stepsPerHour ! nat h"
      by (simp add: entry_or_zero_def stepsPerHour_def)
    from True "1.prems" "1.IH" show ?thesis
      by (simp add: daily_steps_loop.simps [of currentHour h acc] u e)
  next
    case False
    then have "[h .. min currentHour 23] = []" by auto
    moreover from False have "daily_steps_loop currentHour h acc = acc"
      by (subst daily_steps_loop.simps) (simp only: if_False)
    ultimately show ?thesis by simp
  qed
qed

lemma steps_mock_getTodaySteps:
  "steps (mock_getTodaySteps tz now) =
     sum_list (map (\<lambda>k. stepsPerHour ! nat k) [0 .. getHours tz now])"
  using getHours_range [of tz now]
  by (simp add: mock_getTodaySteps_def Let_def generateRealisticDailySteps_def
      daily_steps_loop_eq min_def)

lemma same_day_start:
  assumes "(today + tz) div msPerDay = (now + tz) div msPerDay"
  shows "startOfLocalDay tz today = startOfLocalDay tz now"
proof -
  have "today + tz - (today + tz) mod msPerDay = now + tz - (now + tz) mod msPerDay"
    using assms by (simp add: minus_mod_eq_mult_div)
  then show ?thesis by (simp add: startOfLocalDay_def)
qed

text \<open>
  C3, as amended. \<open>ExpoPedometerAdapter.getTodaySteps\<close> is \<open>getStepCount\<close> from the local
  midnight of the current day to now (its two clock readings falling on the same local day).
  \<open>MockSensorAdapter.getTodaySteps\<close> does not go through \<open>getStepCount\<close>: its record has
  the start date, end date and source that \<open>getStepCount\<close> would give, but the id
  \<open>mock-today-<now>\<close>, which no range query carries, and as steps the sum of the fixed
  \<open>stepsPerHour\<close> table over the hours 0 to the current hour, with the derived fields
  computed from those steps.
\<close>

theorem today_steps_per_adapter:
  "((today + tz) div msPerDay = (now + tz) div msPerDay \<longrightarrow>
      expo_getTodaySteps q tz today now = expo_getStepCount q (startOfLocalDay tz now) now) \<and>
   startDate (mock_getTodaySteps tz now) = startDate (mock_getStepCount r (startOfLocalDay tz now) now) \<and>
   endDate (mock_getTodaySteps tz now) = endDate (mock_getStepCount r (startOfLocalDay tz now) now) \<and>
   source (mock_getTodaySteps tz now) = source (mock_getStepCount r (startOfLocalDay tz now) now) \<and>
   id_str (mock_getTodaySteps tz now) = ''mock-today-'' @ show_int now \<and>
   id_str (mock_getTodaySteps tz now) \<noteq> id_str (mock_getStepCount r (startOfLocalDay tz now) now) \<and>
   steps (mock_getTodaySteps tz now) =
     sum_list (map (\<lambda>k. stepsPerHour ! nat k) [0 .. getHours tz now]) \<and>
   derived_from_steps (mock_getTodaySteps tz now)"
proof -
  have e: "(today + tz) div msPerDay = (now + tz) div msPerDay \<longrightarrow>
      expo_getTodaySteps q tz today now = expo_getStepCount q (startOfLocalDay tz now) now"
  proof
    assume "(today + tz) div msPerDay = (now + tz) div msPerDay"
    from same_day_start [OF this]
    show "expo_getTodaySteps q tz today now = expo_getStepCount q (startOfLocalDay tz now) now"
      by (simp add: expo_getTodaySteps_def localDate_def)
  qed
  have d: "derived_from_steps (mock_getTodaySteps tz now)"
    by (simp add: derived_from_steps_def mock_getTodaySteps_def Let_def)
  have t: "startDate (mock_getTodaySteps tz now) = startOfLocalDay tz now"
    "endDate (mock_getTodaySteps tz now) = now" "source (mock_getTodaySteps tz now) = mock"
    by (simp_all add: mock_getTodaySteps_def Let_def localDate_def)
  have i: "id_str (mock_getTodaySteps tz now) = ''mock-today-'' @ show_int now"
    by (simp add: mock_getTodaySteps_def Let_def)
  have g: "startDate (mock_getStepCount r (startOfLocalDay tz now) now) = startOfLocalDay tz now"
    "endDate (mock_getStepCount r (startOfLocalDay tz now) now) = now"
    "source (mock_getStepCount r (startOfLocalDay tz now) now) = mock"
    by (simp_all add: mock_getStepCount_def Let_def)
  note n = mock_ids_differ [of tz now r "startOfLocalDay tz now" now]
  note s = steps_mock_getTodaySteps [of tz now]
  show ?thesis
    unfolding t g using e d i n s by blast
qed

lemma today_1000: "startOfLocalDay 0 1000 = 0" "getHours 0 1000 = 0"
  by (simp_all add: startOfLocalDay_def getHours_def msPerDay_def)

theorem today_steps_per_adapter_witness:
  "expo_getTodaySteps (\<lambda>s e. Resolved (Some 5000)) 0 999 1000 =
     expo_getStepCount (\<lambda>s e. Resolved (Some 5000)) 0 1000 \<and>
   steps (mock_getTodaySteps 0 1000) = 100 \<and>
   id_str (mock_getTodaySteps 0 1000) = ''mock-today-1000''"
proof -
  have d: "((999::int) + 0) div msPerDay = (1000 + 0) div msPerDay"
    by (simp add: msPerDay_def)
  have s: "show_int 1000 = ''1000''"
    by (simp add: show_int_def show_nat.simps)
  have t: "sum_list (map (\<lambda>k. stepsPerHour ! nat k) [0 .. 0]) = 100"
    by (simp add: stepsPerHour_def)
  from today_steps_per_adapter [of 999 0 1000 "\<lambda>s e. Resolved (Some 5000)" "1 / 2"] d s t
  show ?thesis by (simp add: today_1000)
qed

text \<open>
  C3 as stated fails for \<open>MockSensorAdapter\<close>: one second after local midnight the record of
  \<open>getTodaySteps\<close> differs from that of \<open>getStepCount\<close> over the same interval.
\<close>

theorem mock_today_is_not_a_range_query:
  "mock_getTodaySteps 0 1000 \<noteq> mock_getStepCount (1 / 2) (startOfLocalDay 0 1000) 1000"
proof
  assume "mock_getTodaySteps 0 1000 = mock_getStepCount (1 / 2) (startOfLocalDay 0 1000) 1000"
  then have "id_str (mock_getTodaySteps 0 1000) =
             id_str (mock_getStepCount (1 / 2) (startOfLocalDay 0 1000) 1000)"
    by simp
  then show False
    by (simp add: mock_getTodaySteps_def mock_getStepCount_def Let_def today_1000
        show_int_def show_nat.simps)
qed

subsection \<open>Hourly shares of the simulated day\<close>

lemma hourSteps_generateHourlyData:
  "map hourSteps (generateHourlyData tz clock totalSteps) =
   map (\<lambda>percentage. \<lfloor>fl (of_int totalSteps * percentage)\<rfloor>) distribution"
proof -
  have "map hourSteps (generateHourlyData tz clock totalSteps) =
        map ((\<lambda>percentage. \<lfloor>fl (of_int totalSteps * percentage)\<rfloor>) \<circ> fst)
          (zip distribution [0 .. int (length distribution) - 1])"
    by (simp add: generateHourlyData_def split_beta comp_def)
  also have "\<dots> = map (\<lambda>percentage. \<lfloor>fl (of_int totalSteps * percentage)\<rfloor>)
      (map fst (zip distribution [0 .. int (length distribution) - 1]))"
    by (simp only: map_map)
  also have "map fst (zip distribution [0 .. int (length distribution) - 1]) = distribution"
    by (rule map_fst_zip) simp
  finally show ?thesis .
qed

lemma hourly_share_of_7000:
  "\<lfloor>fl (7000 * fl (1 / 100))\<rfloor> = 70"
  "\<lfloor>fl (7000 * fl (1 / 50))\<rfloor> = 140"
  "\<lfloor>fl (7000 * fl (1 / 25))\<rfloor> = 280"
  "\<lfloor>fl (7000 * fl (1 / 20))\<rfloor> = 350"
  "\<lfloor>fl (7000 * fl (3 / 50))\<rfloor> = 420"
  "\<lfloor>fl (7000 * fl (2 / 25))\<rfloor> = 560"
  "\<lfloor>fl (7000 * fl (1 / 10))\<rfloor> = 700"
  "\<lfloor>fl (7000 * fl (3 / 25))\<rfloor> = 840"
  "\<lfloor>fl (7000 * fl (3 / 20))\<rfloor> = 1050"
  by code_simp+

lemma mock_first_day_of_epoch:
  "mock_getHistoricalSteps (\<lambda>i. 0) 0 clock 0 1 = [mock_day_entry (\<lambda>i. 0) 0 clock 0 0]"
  "steps (mock_day_entry (\<lambda>i. 0) 0 clock 0 0) = 7000"
  "hourlyData (mock_day_entry (\<lambda>i. 0) 0 clock 0 0) = generateHourlyData 0 (clock 0) 7000"
  by (simp_all add: mock_getHistoricalSteps_eq mock_day_entry_def Let_def getDay_def
      minusDays_def msPerDay_def fl_zero)

text \<open>
  C4. The claim puts the sum of the floored hourly shares at most at the day's total and at
  most 23 below it, the table having 24 fractions that add up to 1. The table of
  \<open>generateHourlyData\<close> has 25 fractions that add up to 1.45: for the first day of the
  epoch (a Thursday) and a random draw of 0 the record has 7000 steps and hourly shares that
  add up to 10150.
\<close>

theorem mock_hourly_sum_exceeds_total:
  "steps (hd (mock_getHistoricalSteps (\<lambda>i. 0) 0 clock 0 1)) = 7000 \<and>
   sum_list (map hourSteps (hourlyData (hd (mock_getHistoricalSteps (\<lambda>i. 0) 0 clock 0 1)))) = 10150"
  unfolding mock_first_day_of_epoch list.sel hourSteps_generateHourlyData distribution_def
  by (simp add: hourly_share_of_7000)

text \<open>
  The excess is no accident of that day: each floored share is more than the exact share
  less 1 (and less two roundings), the fractions add up to 1.45, so from 56 steps on the
  shares add up to more than the total; every record of \<open>getHistoricalSteps\<close> has at least
  4000 steps.
\<close>

lemma hourly_share_lower:
  fixes t :: int and k :: rat
  assumes t: "1 \<le> t" and k: "1 \<le> k"
  shows "of_int t * (k / 100) * ((1 - 1 / 2 ^ 53) * (1 - 1 / 2 ^ 53)) - 1
           < of_int \<lfloor>fl (of_int t * fl (k / 100))\<rfloor>"
proof -
  define T :: rat where "T = of_int t"
  have T: "1 \<le> T" using t by (simp add: T_def)
  define p where "p = fl (k / 100)"
  have "1 / 2 ^ 20 \<le> k / 100" using k by simp
  from fl_lower(1) [OF this] have p: "k / 100 * (1 - 1 / 2 ^ 53) \<le> p" by (simp only: p_def)
  then have p0: "1 / 2 ^ 20 \<le> p" using k by simp
  have ppos: "0 \<le> p" using p0 by simp
  have "1 * p \<le> T * p" using T ppos by (rule mult_right_mono)
  then have "p \<le> T * p" by (simp only: mult_1)
  then have "1 / 2 ^ 20 \<le> T * p" using p0 by linarith
  from fl_lower(1) [OF this] have q: "T * p * (1 - 1 / 2 ^ 53) \<le> fl (T * p)" .
  have "T * (k / 100 * (1 - 1 / 2 ^ 53)) \<le> T * p"
    using p T by (intro mult_left_mono) simp_all
  then have "T * (k / 100 * (1 - 1 / 2 ^ 53)) * (1 - 1 / 2 ^ 53) \<le> T * p * (1 - 1 / 2 ^ 53)"
    by (intro mult_right_mono) simp_all
  with q have "T * (k / 100) * ((1 - 1 / 2 ^ 53) * (1 - 1 / 2 ^ 53)) \<le> fl (T * p)"
    by (simp add: mult.assoc)
  moreover have "fl (T * p) - 1 < of_int \<lfloor>fl (T * p)\<rfloor>" by linarith
  ultimately show ?thesis unfolding T_def p_def by linarith
qed

lemma shares_exceed_total_from_56:
  assumes "56 \<le> t"
  shows "t < sum_list (map hourSteps (generateHourlyData tz clock t))"
proof -
  have t: "1 \<le> t" using assms by simp
  define T :: rat where "T = of_int t"
  have T: "56 \<le> T" using assms by (simp add: T_def)
  define f where "f k = (of_int \<lfloor>fl (of_int t * fl (k / 100))\<rfloor> :: rat)" for k
  have lo: "T * (k / 100) * ((1 - 1 / 2 ^ 53) * (1 - 1 / 2 ^ 53)) - 1 < f k" if "1 \<le> k" for k
    unfolding T_def f_def using t that by (rule hourly_share_lower)
  have s: "(of_int (sum_list (map hourSteps (generateHourlyData tz clock t))) :: rat) =
      f 1 + f 1 + f 1 + f 1 + f 1 + f 2 + f 8 + f 12 + f 15 + f 12 + f 8 + f 6 + f 10 +
      f 5 + f 4 + f 4 + f 5 + f 12 + f 15 + f 8 + f 6 + f 4 + f 2 + f 1 + f 1"
    unfolding hourSteps_generateHourlyData distribution_def f_def
    by (simp only: list.map sum_list.Cons sum_list.Nil of_int_add of_int_0 add_0_right add.assoc)
  have "T < f 1 + f 1 + f 1 + f 1 + f 1 + f 2 + f 8 + f 12 + f 15 + f 12 + f 8 + f 6 + f 10 +
      f 5 + f 4 + f 4 + f 5 + f 12 + f 15 + f 8 + f 6 + f 4 + f 2 + f 1 + f 1"
    using T lo [of 1] lo [of 2] lo [of 4] lo [of 5] lo [of 6] lo [of 8] lo [of 10] lo [of 12]
      lo [of 15]
    by simp
  then have "(of_int t :: rat) < of_int (sum_list (map hourSteps (generateHourlyData tz clock t)))"
    by (simp only: s T_def)
  then show ?thesis by (simp only: of_int_less_iff)
qed


lemma mock_history_sums_exceed_totals:
  assumes "\<And>i. 0 \<le> random i"
  shows "list_all (\<lambda>d. steps d < sum_list (map hourSteps (hourlyData d)))
           (mock_getHistoricalSteps random tz clock today days)"
proof -
  have "steps (mock_day_entry random tz clock today i)
          < sum_list (map hourSteps (hourlyData (mock_day_entry random tz clock today i)))" for i
  proof -
    have "0 \<le> fl (random i * 11000)" "0 \<le> fl (random i * 5000)"
      using assms [of i] by (simp_all add: fl_nonneg)
    then have "0 \<le> \<lfloor>fl (random i * 11000)\<rfloor>" "0 \<le> \<lfloor>fl (random i * 5000)\<rfloor>"
      by simp_all
    then have "56 \<le> steps (mock_day_entry random tz clock today i)"
      by (simp add: mock_day_entry_def Let_def)
    from shares_exceed_total_from_56 [OF this, of tz "clock i"] show ?thesis
      by (simp add: mock_day_entry_def Let_def)
  qed
  then show ?thesis by (simp add: mock_getHistoricalSteps_eq list_all_iff)
qed

subsection \<open>Division of integers in doubles\<close>

lemma exponent_normal:
  assumes "2 powi (- 1022) \<le> x"
  shows "- 1022 \<le> exponent x"
proof (rule ccontr)
  have x: "0 < x" using assms powi2_pos [of "- 1022"] by linarith
  assume "\<not> - 1022 \<le> exponent x"
  then have "exponent x + 1 \<le> - 1022" by simp
  then have "(2::rat) powi (exponent x + 1) \<le> 2 powi (- 1022)" by (rule powi2_mono)
  with exponent_bounds(2) [OF x] assms show False by linarith
qed

lemma ulp_grid:
  assumes "2 powi (- 1022) \<le> y" and "y < 2 ^ 53"
  obtains K :: int where "0 < K" and "ulp y * of_int K = 1"
proof -
  have y: "0 < y" using assms(1) powi2_pos [of "- 1022"] by linarith
  have lo: "- 1022 \<le> exponent y" using assms(1) by (rule exponent_normal)
  have hi: "exponent y \<le> 52"
  proof (rule ccontr)
    assume "\<not> exponent y \<le> 52"
    then have "53 \<le> exponent y" by simp
    then have "(2::rat) powi 53 \<le> 2 powi (exponent y)" by (rule powi2_mono)
    with exponent_bounds(1) [OF y] assms(2) show False by simp
  qed
  have u: "ulp y = 2 powi (exponent y - 52)" using y lo by (simp add: ulp_def)
  have "ulp y * of_int (2 ^ nat (52 - exponent y)) = 2 powi (exponent y - 52) * 2 powi (52 - exponent y)"
    using hi by (simp add: u power_int_nonneg_exp)
  also have "\<dots> = 1" by (simp add: powi2_add [symmetric])
  finally have "ulp y * of_int (2 ^ nat (52 - exponent y)) = 1" .
  moreover have "(0::int) < 2 ^ nat (52 - exponent y)" by simp
  ultimately show thesis using that by blast
qed

lemma fl_between_ints:
  assumes n: "2 powi (- 1022) \<le> y" and b: "y < 2 ^ 53"
  shows "of_int N \<le> y \<Longrightarrow> of_int N \<le> fl y"
    and "y \<le> of_int N \<Longrightarrow> fl y \<le> of_int N"
    and "y + ulp y / 2 < of_int N \<Longrightarrow> fl y < of_int N"
    and "of_int N + ulp y / 2 < y \<Longrightarrow> of_int N < fl y"
proof -
  have y: "0 < y" using n powi2_pos [of "- 1022"] by linarith
  obtain K :: int where K: "0 < K" "ulp y * of_int K = 1" using ulp_grid [OF n b] by blast
  let ?u = "ulp y"
  have u: "0 < ?u" by (rule ulp_pos)
  have Kr: "(0::rat) < of_int K" using K(1) by simp
  have inv: "1 / ?u = of_int K" using K(2) u by (simp add: field_simps)
  have "of_int (N * K) * ?u = of_int N * (?u * of_int K)" by (simp add: ac_simps)
  then have grid: "of_int N = of_int (N * K) * ?u" by (simp only: K(2) mult_1_right)
  have f: "fl y = of_int (round_half_even (y / ?u)) * ?u" by (rule fl_pos [OF y])
  have q: "y / ?u = y * of_int K" unfolding inv [symmetric] by simp
  {
    assume "of_int N \<le> y"
    then have "of_int (N * K) \<le> y / ?u" using Kr by (simp add: q mult_right_mono)
    then have "N * K \<le> round_half_even (y / ?u)" by (rule round_half_even_ge)
    then have "(of_int (N * K) :: rat) \<le> of_int (round_half_even (y / ?u))"
      by (simp only: of_int_le_iff)
    then have "of_int (N * K) * ?u \<le> of_int (round_half_even (y / ?u)) * ?u"
      using u by (simp only: mult_le_cancel_right_pos)
    then show "of_int N \<le> fl y" by (simp only: f grid [symmetric])
  }
  {
    assume "y \<le> of_int N"
    then have "y / ?u \<le> of_int (N * K)" using Kr by (simp add: q mult_right_mono)
    then have "round_half_even (y / ?u) \<le> N * K" by (rule round_half_even_le)
    then have "(of_int (round_half_even (y / ?u)) :: rat) \<le> of_int (N * K)"
      by (simp only: of_int_le_iff)
    then have "of_int (round_half_even (y / ?u)) * ?u \<le> of_int (N * K) * ?u"
      using u by (simp only: mult_le_cancel_right_pos)
    then show "fl y \<le> of_int N" by (simp only: f grid [symmetric])
  }
  {
    assume "y + ?u / 2 < of_int N"
    then have "(y + ?u / 2) * of_int K < of_int N * of_int K"
      using Kr by (simp only: mult_less_cancel_right_pos)
    then have "y * of_int K + (?u * of_int K) / 2 < of_int (N * K)"
      by (simp add: distrib_right)
    then have "y / ?u < of_int (N * K) - 1 / 2" by (simp add: q K(2))
    then have "round_half_even (y / ?u) \<le> N * K - 1" by (rule round_half_even_neg_le)
    then have "(of_int (round_half_even (y / ?u)) :: rat) \<le> of_int (N * K - 1)"
      by (simp only: of_int_le_iff)
    then have "of_int (round_half_even (y / ?u)) * ?u \<le> of_int (N * K - 1) * ?u"
      using u by (simp only: mult_le_cancel_right_pos)
    also have "of_int (N * K - 1) * ?u = of_int N - ?u"
      using grid by (simp add: left_diff_distrib)
    finally have "fl y \<le> of_int N - ?u" by (simp only: f)
    then show "fl y < of_int N" using u by linarith
  }
  {
    assume "of_int N + ?u / 2 < y"
    then have "(of_int N + ?u / 2) * of_int K < y * of_int K"
      using Kr by (simp only: mult_less_cancel_right_pos)
    then have "of_int (N * K) + (?u * of_int K) / 2 < y * of_int K"
      by (simp add: distrib_right)
    then have "of_int (N * K) + 1 / 2 < y / ?u" by (simp add: q K(2))
    then have "N * K + 1 \<le> round_half_even (y / ?u)" by (rule round_half_even_pos_ge)
    then have "(of_int (N * K + 1) :: rat) \<le> of_int (round_half_even (y / ?u))"
      by (simp only: of_int_le_iff)
    then have le: "of_int (N * K + 1) * ?u \<le> of_int (round_half_even (y / ?u)) * ?u"
      using u by (simp only: mult_le_cancel_right_pos)
    have "of_int N + ?u = of_int (N * K + 1) * ?u"
      using grid by (simp add: distrib_right)
    also note le
    finally have "of_int N + ?u \<le> fl y" by (simp only: f)
    then show "of_int N < fl y" using u by linarith
  }
qed


lemma fl_quotient_floor_ceiling:
  fixes a b :: int
  assumes a: "0 < a" "a < 2 ^ 53" and b: "0 < b" "b < 2 ^ 53"
  shows "\<lfloor>fl (of_int a / of_int b)\<rfloor> = \<lfloor>(of_int a / of_int b :: rat)\<rfloor>"
    and "\<lceil>fl (of_int a / of_int b)\<rceil> = \<lceil>(of_int a / of_int b :: rat)\<rceil>"
proof -
  define y :: rat where "y = of_int a / of_int b"
  have ar: "(0::rat) < of_int a" "(of_int a :: rat) < 2 ^ 53"
    using a by (simp, metis of_int_less_iff of_int_numeral of_int_power)
  have br: "(1::rat) \<le> of_int b" "(of_int b :: rat) < 2 ^ 53"
    using b by (simp, metis of_int_less_iff of_int_numeral of_int_power)
  have bp: "(0::rat) < of_int b" using br(1) by linarith
  have yb: "y * of_int b = of_int a" using bp by (simp add: y_def)
  have y0: "0 < y" using ar(1) bp by (simp add: y_def)
  have "y * 1 \<le> y * of_int b" using br(1) y0 by (simp only: mult_le_cancel_left_pos)
  then have ylt: "y < 2 ^ 53" using yb ar(2) by simp
  have "1 / 2 ^ 53 < 1 / (of_int b :: rat)" using br(2) bp by (simp add: frac_less2)
  also have "1 / of_int b \<le> y" using ar(1) a(1) bp by (simp add: y_def divide_right_mono)
  finally have ymin: "1 / 2 ^ 53 < y" .
  have "(2::rat) powi (- 1022) \<le> 2 powi (- 53)" by (rule powi2_mono) simp
  also have "(2::rat) powi (- 53) = 1 / 2 ^ 53" by (simp add: power_int_minus_divide)
  finally have yn: "2 powi (- 1022) \<le> y" using ymin by linarith
  have "ulp y / 2 \<le> (y / 2 ^ 52) / 2" using ulp_le [OF yn] by simp
  also have "\<dots> = (of_int a / 2 ^ 53) / of_int b" by (simp add: y_def)
  also have "\<dots> < 1 / of_int b"
  proof -
    have "(of_int a :: rat) / 2 ^ 53 < 1" using ar(2) by simp
    then show ?thesis using bp by (rule divide_strict_right_mono)
  qed
  finally have half: "ulp y / 2 < 1 / of_int b" .
  have gap: "y + 1 / of_int b \<le> of_int m" if "y < of_int m" for m :: int
  proof -
    from that have "of_int a < (of_int m :: rat) * of_int b"
      using bp by (simp add: y_def pos_divide_less_eq)
    then have "a < m * b" by (metis of_int_less_iff of_int_mult)
    then have "a + 1 \<le> m * b" by simp
    then have "(of_int (a + 1) :: rat) \<le> of_int (m * b)" by (simp only: of_int_le_iff)
    then have "(of_int a + 1 :: rat) \<le> of_int m * of_int b" by simp
    then have "(of_int a + 1) / of_int b \<le> (of_int m :: rat)"
      using bp by (simp only: pos_divide_le_eq)
    then show ?thesis by (simp only: y_def add_divide_distrib)
  qed
  have gap': "of_int m + 1 / of_int b \<le> y" if "of_int m < y" for m :: int
  proof -
    from that have "(of_int m :: rat) * of_int b < of_int a"
      using bp by (simp add: y_def pos_less_divide_eq)
    then have "m * b < a" by (metis of_int_less_iff of_int_mult)
    then have "m * b + 1 \<le> a" by simp
    then have "(of_int (m * b + 1) :: rat) \<le> of_int a" by (simp only: of_int_le_iff)
    then have "(of_int m * of_int b + 1 :: rat) \<le> of_int a" by simp
    then have "(of_int m * of_int b + 1) / of_int b \<le> (of_int a :: rat) / of_int b"
      using bp by (simp only: divide_le_cancel) simp
    then show ?thesis using bp by (simp add: y_def add_divide_distrib)
  qed
  have "of_int \<lfloor>y\<rfloor> \<le> y" by simp
  then have f1: "of_int \<lfloor>y\<rfloor> \<le> fl y" by (rule fl_between_ints(1) [OF yn ylt])
  have "y < of_int (\<lfloor>y\<rfloor> + 1)" by linarith
  from gap [OF this] half have "y + ulp y / 2 < of_int (\<lfloor>y\<rfloor> + 1)" by linarith
  then have "fl y < of_int (\<lfloor>y\<rfloor> + 1)" by (rule fl_between_ints(3) [OF yn ylt])
  with f1 have "\<lfloor>fl y\<rfloor> = \<lfloor>y\<rfloor>" by (intro floor_unique) simp_all
  then show "\<lfloor>fl (of_int a / of_int b)\<rfloor> = \<lfloor>(of_int a / of_int b :: rat)\<rfloor>"
    by (simp only: y_def)
  have "y \<le> of_int \<lceil>y\<rceil>" by simp
  then have c1: "fl y \<le> of_int \<lceil>y\<rceil>" by (rule fl_between_ints(2) [OF yn ylt])
  have "of_int (\<lceil>y\<rceil> - 1) < y" by linarith
  from gap' [OF this] half have "of_int (\<lceil>y\<rceil> - 1) + ulp y / 2 < y" by linarith
  then have "of_int (\<lceil>y\<rceil> - 1) < fl y" by (rule fl_between_ints(4) [OF yn ylt])
  with c1 have "\<lceil>fl y\<rceil> = \<lceil>y\<rceil>" by (intro ceiling_unique) simp_all
  then show "\<lceil>fl (of_int a / of_int b)\<rceil> = \<lceil>(of_int a / of_int b :: rat)\<rceil>"
    by (simp only: y_def)
qed

lemma floor_fl_quotient:
  fixes a b :: int
  assumes a: "\<bar>a\<bar> < 2 ^ 53" and b: "\<bar>b\<bar> < 2 ^ 53" and nz: "b \<noteq> 0"
  shows "\<lfloor>fl (of_int a / of_int b)\<rfloor> = \<lfloor>(of_int a / of_int b :: rat)\<rfloor>"
proof -
  consider "a = 0" | "0 < a" "0 < b" | "a < 0" "b < 0" | "0 < a" "b < 0" | "a < 0" "0 < b"
    using nz by linarith
  then show ?thesis
  proof cases
    case 1
    then show ?thesis by (simp add: fl_zero)
  next
    case 2
    with a b show ?thesis by (intro fl_quotient_floor_ceiling(1)) simp_all
  next
    case 3
    with a b have "\<lfloor>fl (of_int (- a) / of_int (- b))\<rfloor> = \<lfloor>(of_int (- a) / of_int (- b) :: rat)\<rfloor>"
      by (intro fl_quotient_floor_ceiling(1)) simp_all
    then show ?thesis by simp
  next
    case 4
    with a b have c: "\<lceil>fl (of_int a / of_int (- b))\<rceil> = \<lceil>(of_int a / of_int (- b) :: rat)\<rceil>"
      by (intro fl_quotient_floor_ceiling(2)) simp_all
    have "(of_int a / of_int b :: rat) = - (of_int a / of_int (- b))" by simp
    then have "\<lfloor>fl (of_int a / of_int b)\<rfloor> = - \<lceil>fl (of_int a / of_int (- b))\<rceil>"
      by (simp only: fl_minus floor_minus)
    also have "\<dots> = - \<lceil>(of_int a / of_int (- b) :: rat)\<rceil>" by (simp only: c)
    also have "\<dots> = \<lfloor>(of_int a / of_int b :: rat)\<rfloor>" by (simp add: floor_minus [symmetric])
    finally show ?thesis .
  next
    case 5
    with a b have c: "\<lceil>fl (of_int (- a) / of_int b)\<rceil> = \<lceil>(of_int (- a) / of_int b :: rat)\<rceil>"
      by (intro fl_quotient_floor_ceiling(2)) simp_all
    have "(of_int a / of_int b :: rat) = - (of_int (- a) / of_int b)" by simp
    then have "\<lfloor>fl (of_int a / of_int b)\<rfloor> = - \<lceil>fl (of_int (- a) / of_int b)\<rceil>"
      by (simp only: fl_minus floor_minus)
    also have "\<dots> = - \<lceil>(of_int (- a) / of_int b :: rat)\<rceil>" by (simp only: c)
    also have "\<dots> = \<lfloor>(of_int a / of_int b :: rat)\<rfloor>" by (simp add: floor_minus [symmetric])
    finally show ?thesis .
  qed
qed

text \<open>
  C9, as amended. For integers of magnitude below \<open>2^53\<close> (the integers that doubles hold
  without gaps) \<open>calculatePace\<close> returns the floor of the exact quotient when \<open>minutes\<close> is
  not 0, and 0 when it is 0: rounding the quotient to a double never crosses an integer,
  because the quotient of two such integers lies at least \<open>1 / minutes\<close> away from the
  next integer, which is more than half a unit in the last place. The guard makes the
  function total; there is no division by zero.
\<close>

theorem calculatePace_floor_division:
  assumes "\<bar>s\<bar> < 2 ^ 53" and "\<bar>minutes\<bar> < 2 ^ 53"
  shows "calculatePace s minutes =
           (if minutes = 0 then 0 else \<lfloor>(of_int s / of_int minutes :: rat)\<rfloor>) \<and>
         calculatePace s minutes = (if minutes = 0 then 0 else s div minutes)"
proof (cases "minutes = 0")
  case True
  then show ?thesis by (simp add: calculatePace_def)
next
  case False
  from floor_fl_quotient [OF assms False] False show ?thesis
    by (simp add: calculatePace_def floor_divide_of_int_eq)
qed

theorem calculatePace_floor_division_witness:
  "calculatePace 100 7 = 14 \<and> calculatePace (- 100) 7 = - 15 \<and> calculatePace 100 0 = 0"
proof -
  have h: "\<bar>100::int\<bar> < 2 ^ 53" "\<bar>- 100::int\<bar> < 2 ^ 53" "\<bar>7::int\<bar> < 2 ^ 53" "\<bar>0::int\<bar> < 2 ^ 53"
    by simp_all
  from calculatePace_floor_division [OF h(1) h(3)] calculatePace_floor_division [OF h(2) h(3)]
    calculatePace_floor_division [OF h(1) h(4)]
  show ?thesis by simp
qed

text \<open>
  C9 as stated, for all integers, fails above \<open>2^53\<close>: \<open>2^54 - 2\<close> is a double, its quotient
  by 3 is rounded up to the next integer before the floor is taken.
\<close>

theorem calculatePace_rounds_up_large_quotient:
  "calculatePace 18014398509481982 3 \<noteq> \<lfloor>(18014398509481982 :: rat) / 3\<rfloor>"
proof -
  have "calculatePace 18014398509481982 3 = 6004799503160661" by code_simp
  moreover have "\<lfloor>(18014398509481982 :: rat) / 3\<rfloor> = 6004799503160660"
    by (rule floor_unique) simp_all
  ultimately show ?thesis by simp
qed

subsection \<open>Distance and back\<close>

lemma round_trip_chain:
  fixes S m x N d y z :: rat
  assumes S: "1 \<le> S" "S \<le> 10 ^ 12"
    and m: "S * (3422735716801577 / 4503599627370496) * (1 - 1 / 2 ^ 53) \<le> m"
    and x: "m / 1000 * (1 - 1 / 2 ^ 53) \<le> x"
    and N: "x * 100 - 1 / 2 < N"
    and d: "N / 100 * (1 - 1 / 2 ^ 53) \<le> d"
    and y: "d * 1000 * (1 - 1 / 2 ^ 53) \<le> y"
    and z: "y / (3422735716801577 / 4503599627370496) * (1 - 1 / 2 ^ 53) \<le> z"
  shows "S - 7 < z"
  using assms by simp


text \<open>
  C5, as amended. With the default stride, for every step count from 0 to \<open>10^12\<close> the
  inverse applied to the computed distance falls short of the count by at most 6 steps:
  the distance is rounded to the nearest 0.01 km first, which may round down by up to
  0.005 km, that is 6.58 steps, and the ceiling of the inverse recovers less than one.
\<close>

theorem round_trip_within_six_steps:
  assumes "0 \<le> s" and "s \<le> 10 ^ 12"
  shows "s - 6 \<le> stepsForDistance (calculateDistance s DEFAULT_STRIDE_LENGTH) DEFAULT_STRIDE_LENGTH"
proof (cases "s = 0")
  case True
  then show ?thesis
    by (simp add: calculateDistance_zero stepsForDistance_def fl_zero)
next
  case False
  define c :: rat where "c = 3422735716801577 / 4503599627370496"
  have cc: "DEFAULT_STRIDE_LENGTH = c" by (simp only: stride_value c_def)
  define S :: rat where "S = of_int s"
  from False assms(1) have "1 \<le> s" by simp
  then have S1: "1 \<le> S" by (simp add: S_def)
  from assms(2) have "(of_int s :: rat) \<le> of_int (10 ^ 12)" by (simp only: of_int_le_iff)
  then have S2: "S \<le> 10 ^ 12" by (simp add: S_def)
  define m where "m = fl (S * c)"
  have "1 / 2 ^ 20 \<le> S * c" using S1 by (simp add: c_def)
  from fl_lower [OF this]
  have m: "S * c * (1 - 1 / 2 ^ 53) \<le> m" "m \<le> S * c * (1 + 1 / 2 ^ 53)"
    by (simp_all only: m_def)
  define x where "x = fl (m / 1000)"
  have "1 / 2 ^ 20 \<le> m / 1000" using S1 m(1) by (simp add: c_def)
  from fl_lower [OF this]
  have x: "m / 1000 * (1 - 1 / 2 ^ 53) \<le> x" "x \<le> m / 1000 * (1 + 1 / 2 ^ 53)"
    by (simp_all only: x_def)
  have xpos: "0 < x" using S1 m(1) x(1) by (simp add: c_def)
  have xsmall: "x < 10 ^ 21" using S2 m(2) x(2) by (simp add: c_def)
  have dk: "distanceKm_of s DEFAULT_STRIDE_LENGTH = x"
    by (simp add: distanceKm_of_def Let_def cc m_def x_def S_def)
  define n where "n = \<lfloor>x * 100 + 1 / 2\<rfloor>"
  have "x * 100 + 1 / 2 < of_int \<lfloor>x * 100 + 1 / 2\<rfloor> + 1" by linarith
  then have N: "x * 100 - 1 / 2 < of_int n" by (simp add: n_def)
  have "(0::rat) \<le> x * 100 + 1 / 2" using xpos by simp
  then have n0: "0 \<le> n" unfolding n_def by (simp only: zero_le_floor)
  define d where "d = fl (of_int n / 100)"
  have cd: "calculateDistance s DEFAULT_STRIDE_LENGTH = d"
    using xpos xsmall
    by (simp add: calculateDistance_def dk parseFloat_toFixed_def toFixed_digits_def d_def n_def)
  show ?thesis
  proof (cases "n = 0")
    case True
    then have "d = 0" by (simp add: d_def fl_zero)
    then have r: "stepsForDistance (calculateDistance s DEFAULT_STRIDE_LENGTH) DEFAULT_STRIDE_LENGTH = 0"
      by (simp add: cd stepsForDistance_def fl_zero)
    from True N have "x * 100 - 1 / 2 < 0" by simp
    with m(1) x(1) have "S < 7" by (simp add: c_def)
    then have "(of_int s :: rat) < of_int 7" by (simp add: S_def)
    then have "s < 7" by (simp only: of_int_less_iff)
    with r show ?thesis by simp
  next
    case False
    with n0 have "1 \<le> n" by simp
    then have n1: "(1::rat) \<le> of_int n" by simp
    then have "1 / 2 ^ 20 \<le> (of_int n :: rat) / 100" by simp
    from fl_lower(1) [OF this] have dlo: "of_int n / 100 * (1 - 1 / 2 ^ 53) \<le> d"
      by (simp only: d_def)
    define y where "y = fl (d * 1000)"
    have "1 / 2 ^ 20 \<le> d * 1000" using n1 dlo by simp
    from fl_lower(1) [OF this] have ylo: "d * 1000 * (1 - 1 / 2 ^ 53) \<le> y"
      by (simp only: y_def)
    define z where "z = fl (y / c)"
    have "1 / 2 ^ 20 \<le> y / c" using n1 dlo ylo by (simp add: c_def)
    from fl_lower(1) [OF this] have zlo: "y / c * (1 - 1 / 2 ^ 53) \<le> z"
      by (simp only: z_def)
    have "S - 7 < z"
      using S1 S2 m(1) x(1) N dlo ylo zlo unfolding c_def by (rule round_trip_chain)
    also have "z \<le> of_int \<lceil>z\<rceil>" by simp
    finally have "(of_int (s - 7) :: rat) < of_int \<lceil>z\<rceil>" by (simp add: S_def)
    then have "s - 7 < \<lceil>z\<rceil>" by (simp only: of_int_less_iff)
    moreover have "stepsForDistance (calculateDistance s DEFAULT_STRIDE_LENGTH) DEFAULT_STRIDE_LENGTH = \<lceil>z\<rceil>"
      unfolding cd by (simp add: stepsForDistance_def Let_def cc y_def z_def)
    ultimately show ?thesis by simp
  qed
qed

theorem round_trip_within_six_steps_witness:
  "(0::int) \<le> 10000 \<and> (10000::int) \<le> 10 ^ 12 \<and>
   10000 - 6 \<le> stepsForDistance (calculateDistance 10000 DEFAULT_STRIDE_LENGTH) DEFAULT_STRIDE_LENGTH"
proof -
  have h: "(0::int) \<le> 10000" "(10000::int) \<le> 10 ^ 12" by simp_all
  from round_trip_within_six_steps [OF h] h show ?thesis by simp
qed

text \<open>The bound is attained: 6 steps are 0.00 km, which needs 0 steps.\<close>

lemma round_trip_of_6:
  "stepsForDistance (calculateDistance 6 DEFAULT_STRIDE_LENGTH) DEFAULT_STRIDE_LENGTH = 0"
  by code_simp

text \<open>C5 as stated fails already at one step: its distance is 0.00 km.\<close>

theorem round_trip_undershoots_at_1:
  "\<not> 1 \<le> stepsForDistance (calculateDistance 1 DEFAULT_STRIDE_LENGTH) DEFAULT_STRIDE_LENGTH"
  by code_simp

end
